theory Spec2Isabelle
  imports Main "HOL-Library.Sublist"
begin

section \<open>Strings: the library calls the commands rely on\<close>

text \<open>
  Go strings are byte sequences; \<open>string\<close> (a list of 8-bit characters) models them
  byte for byte. The functions below are the ones of packages \<open>strings\<close>, \<open>fmt\<close> and
  \<open>path/filepath\<close> that the repository calls.
\<close>

fun HasPrefix :: "string \<Rightarrow> string \<Rightarrow> bool" where
  "HasPrefix s [] = True"
| "HasPrefix [] (p # ps) = False"
| "HasPrefix (c # cs) (p # ps) = (c = p \<and> HasPrefix cs ps)"

definition HasSuffix :: "string \<Rightarrow> string \<Rightarrow> bool" where
  "HasSuffix s suf =
     (length suf \<le> length s \<and> drop (length s - length suf) s = suf)"

fun Contains :: "string \<Rightarrow> string \<Rightarrow> bool" where
  "Contains [] sub = (sub = [])"
| "Contains (c # cs) sub = (HasPrefix (c # cs) sub \<or> Contains cs sub)"

text \<open>
  White space is Unicode's, as \<open>unicode.IsSpace\<close> has it: the six ASCII blanks (tab,
  newline, vertical tab, form feed, carriage return, space), U+0085, U+00A0, U+1680,
  U+2000 to U+200A, U+2028, U+2029, U+202F, U+205F and U+3000. \<open>spaceRunes\<close> lists the
  UTF-8 encoding of each. A string begins with a white-space rune exactly when it begins
  with one of these encodings, and ends with one exactly when it ends with one of them;
  a byte sequence that is not valid UTF-8 decodes to the replacement rune, which is not
  white space.
\<close>

definition spaceRunes :: "string list" where
  "spaceRunes =
     [[CHR 0x09], [CHR 0x0A], [CHR 0x0B], [CHR 0x0C], [CHR 0x0D], [CHR 0x20],
      [CHR 0xC2, CHR 0x85], [CHR 0xC2, CHR 0xA0],
      [CHR 0xE1, CHR 0x9A, CHR 0x80],
      [CHR 0xE2, CHR 0x80, CHR 0x80], [CHR 0xE2, CHR 0x80, CHR 0x81],
      [CHR 0xE2, CHR 0x80, CHR 0x82], [CHR 0xE2, CHR 0x80, CHR 0x83],
      [CHR 0xE2, CHR 0x80, CHR 0x84], [CHR 0xE2, CHR 0x80, CHR 0x85],
      [CHR 0xE2, CHR 0x80, CHR 0x86], [CHR 0xE2, CHR 0x80, CHR 0x87],
      [CHR 0xE2, CHR 0x80, CHR 0x88], [CHR 0xE2, CHR 0x80, CHR 0x89],
      [CHR 0xE2, CHR 0x80, CHR 0x8A],
      [CHR 0xE2, CHR 0x80, CHR 0xA8], [CHR 0xE2, CHR 0x80, CHR 0xA9],
      [CHR 0xE2, CHR 0x80, CHR 0xAF],
      [CHR 0xE2, CHR 0x81, CHR 0x9F],
      [CHR 0xE3, CHR 0x80, CHR 0x80]]"

text \<open>
  \<open>stripLeading encs s\<close> removes from the front of \<open>s\<close> every leading occurrence of
  one of the byte sequences \<open>encs\<close>. \<open>strings.TrimSpace\<close> removes the leading and the
  trailing white-space runes; the trailing ones are the leading ones of the reversed
  string, with each encoding reversed.
\<close>

fun stripLeading :: "string list \<Rightarrow> string \<Rightarrow> string" where
  "stripLeading encs [] = []"
| "stripLeading encs (c # cs) =
     (case List.find (HasPrefix (c # cs)) encs of
        None \<Rightarrow> c # cs
      | Some enc \<Rightarrow> stripLeading encs (drop (length enc - 1) cs))"

definition TrimSpace :: "string \<Rightarrow> string" where
  "TrimSpace s = rev (stripLeading (map rev spaceRunes) (rev (stripLeading spaceRunes s)))"

definition lowerTable :: "(char \<times> char) list" where
  "lowerTable = zip ''ABCDEFGHIJKLMNOPQRSTUVWXYZ'' ''abcdefghijklmnopqrstuvwxyz''"

definition toLowerChar :: "char \<Rightarrow> char" where
  "toLowerChar c = (case map_of lowerTable c of Some l \<Rightarrow> l | None \<Rightarrow> c)"

definition ToLower :: "string \<Rightarrow> string" where
  "ToLower s = map toLowerChar s"

text \<open>\<open>filepath.IsAbs\<close> on a Unix system: the path begins with a slash.\<close>

definition IsAbs :: "string \<Rightarrow> bool" where
  "IsAbs p = HasPrefix p ''/''"

subsection \<open>Scanning a decimal integer\<close>

text \<open>
  \<open>fmt.Sscanf(s, "%d", &x)\<close>: leading white space is skipped (a newline there is an
  error),
  one optional sign is accepted, at least one decimal digit is required, the digits are
  read greedily and what follows them is left unread. The value must fit 64 bits.
  \<open>None\<close> is the error return, after which \<open>x\<close> keeps its old value.
\<close>

definition digitVal :: "char \<Rightarrow> int option" where
  "digitVal c = map_of (zip ''0123456789'' [0, 1, 2, 3, 4, 5, 6, 7, 8, 9]) c"

fun SkipSpace :: "string \<Rightarrow> string option" where
  "SkipSpace [] = Some []"
| "SkipSpace (c # cs) =
     (if c = CHR 0x0A then None
      else (case List.find (HasPrefix (c # cs)) spaceRunes of
              None \<Rightarrow> Some (c # cs)
            | Some enc \<Rightarrow> SkipSpace (drop (length enc - 1) cs)))"

fun scanDigits :: "int \<Rightarrow> string \<Rightarrow> int" where
  "scanDigits acc [] = acc"
| "scanDigits acc (c # cs) =
     (case digitVal c of
        None \<Rightarrow> acc
      | Some d \<Rightarrow> scanDigits (10 * acc + d) cs)"

definition scanNumber :: "string \<Rightarrow> int option" where
  "scanNumber s =
     (case s of
        [] \<Rightarrow> None
      | c # cs \<Rightarrow> (case digitVal c of None \<Rightarrow> None | Some d \<Rightarrow> Some (scanDigits 0 s)))"

definition inInt64 :: "int \<Rightarrow> bool" where
  "inInt64 v = (- (2 ^ 63) \<le> v \<and> v < 2 ^ 63)"

definition scanInt :: "string \<Rightarrow> int option" where
  "scanInt s =
     (case s of
        [] \<Rightarrow> None
      | c # cs \<Rightarrow>
          (let neg = (c = CHR ''-'');
               body = (if c = CHR ''-'' \<or> c = CHR ''+'' then cs else s)
           in case scanNumber body of
                None \<Rightarrow> None
              | Some v \<Rightarrow>
                  (let i = (if neg then - v else v)
                   in if inInt64 i then Some i else None)))"

definition Sscanf_d :: "string \<Rightarrow> int option" where
  "Sscanf_d s = (case SkipSpace s of None \<Rightarrow> None | Some r \<Rightarrow> scanInt r)"

text \<open>Go's \<open>int\<close> is 64 bits wide here; arithmetic on it wraps around.\<close>

definition wrap64 :: "int \<Rightarrow> int" where
  "wrap64 x = (x + 2 ^ 63) mod 2 ^ 64 - 2 ^ 63"

section \<open>The version-control backend\<close>

text \<open>
  Every \<open>exec.Command("git", ...)\<close> of the sources is a call: the directory it runs in
  and the arguments after \<open>git\<close>. The backend answers a call with the combined output
  and an error (\<open>None\<close> is Go's \<open>nil\<close>); its answer may depend on every call issued
  before, which is how a repository that changes under the commands is modelled. Each
  function takes the log of the calls issued so far and returns it extended.
\<close>

datatype error =
    ExecError string
  | RebaseConflict
  | RebaseFailed error string
  | AbortFailed error string
  | StageFailed error string
  | CommitFailed error string
  | LastCommitFailed error

type_synonym call = "string \<times> string list"

type_synonym backend = "call list \<Rightarrow> call \<Rightarrow> string \<times> error option"

definition CombinedOutput ::
  "backend \<Rightarrow> string \<Rightarrow> string list \<Rightarrow> call list \<Rightarrow> (string \<times> error option) \<times> call list" where
  "CombinedOutput b dir args log = (b log (dir, args), log @ [(dir, args)])"

text \<open>The commands that change a worktree: staging, committing, rebasing and aborting.\<close>

definition isMutation :: "string list \<Rightarrow> bool" where
  "isMutation args =
     (case args of
        [] \<Rightarrow> False
      | a # _ \<Rightarrow> a = ''add'' \<or> a = ''commit'' \<or> a = ''rebase'')"

definition noMutation :: "call list \<Rightarrow> bool" where
  "noMutation log = list_all (\<lambda>c. \<not> isMutation (snd c)) log"

section \<open>Package git: repository.go, commit.go, rebase.go\<close>

definition GetCurrentBranch ::
  "backend \<Rightarrow> string \<Rightarrow> call list \<Rightarrow> (error + string) \<times> call list" where
  "GetCurrentBranch b dir log =
     (let (r, log1) = CombinedOutput b dir [''branch'', ''--show-current''] log
      in case snd r of
           Some e \<Rightarrow> (Inl e, log1)
         | None \<Rightarrow> (Inr (TrimSpace (fst r)), log1))"

definition HasUncommittedChanges ::
  "backend \<Rightarrow> string \<Rightarrow> call list \<Rightarrow> bool \<times> call list" where
  "HasUncommittedChanges b dir log =
     (let (r, log1) = CombinedOutput b dir [''status'', ''--porcelain''] log
      in (snd r = None \<and> TrimSpace (fst r) \<noteq> [], log1))"

definition GetCommitCountDifference ::
  "backend \<Rightarrow> string \<Rightarrow> string \<Rightarrow> call list \<Rightarrow> (error + int) \<times> call list" where
  "GetCommitCountDifference b worktreePath baseBranch log =
     (let (ra, log1) =
            CombinedOutput b worktreePath [''rev-list'', ''--count'', baseBranch @ ''..HEAD''] log
      in case snd ra of
           Some e \<Rightarrow> (Inl e, log1)
         | None \<Rightarrow>
             (let ahead = TrimSpace (fst ra);
                  (rb, log2) =
                    CombinedOutput b worktreePath
                      [''rev-list'', ''--count'', ''HEAD..'' @ baseBranch] log1
              in case snd rb of
                   Some e \<Rightarrow> (Inl e, log2)
                 | None \<Rightarrow>
                     (let behind = TrimSpace (fst rb);
                          aheadCount =
                            (if ahead \<noteq> []
                             then (case Sscanf_d ahead of Some v \<Rightarrow> v | None \<Rightarrow> 0)
                             else 0);
                          behindCount =
                            (if behind \<noteq> []
                             then (case Sscanf_d behind of Some v \<Rightarrow> v | None \<Rightarrow> 0)
                             else 0)
                      in (Inr (wrap64 (aheadCount - behindCount)), log2))))"

definition StageAll :: "backend \<Rightarrow> string \<Rightarrow> call list \<Rightarrow> error option \<times> call list" where
  "StageAll b repoPath log =
     (let (r, log1) = CombinedOutput b repoPath [''add'', ''-A''] log
      in case snd r of
           Some e \<Rightarrow> (Some (StageFailed e (fst r)), log1)
         | None \<Rightarrow> (None, log1))"

definition Commit ::
  "backend \<Rightarrow> string \<Rightarrow> string \<Rightarrow> call list \<Rightarrow> error option \<times> call list" where
  "Commit b repoPath message log =
     (let (r, log1) = CombinedOutput b repoPath [''commit'', ''-m'', message] log
      in case snd r of
           Some e \<Rightarrow> (Some (CommitFailed e (fst r)), log1)
         | None \<Rightarrow> (None, log1))"

definition AbortRebase :: "backend \<Rightarrow> string \<Rightarrow> call list \<Rightarrow> error option \<times> call list" where
  "AbortRebase b repoPath log =
     (let (r, log1) = CombinedOutput b repoPath [''rebase'', ''--abort''] log
      in case snd r of
           Some e \<Rightarrow> (Some (AbortFailed e (fst r)), log1)
         | None \<Rightarrow> (None, log1))"

text \<open>
  The conflict test both rebase functions apply to the output of a failed rebase:
  three calls of \<open>strings.Contains\<close>.
\<close>

definition isConflictOutput :: "string \<Rightarrow> bool" where
  "isConflictOutput outputStr =
     (Contains outputStr ''conflict'' \<or> Contains outputStr ''CONFLICT'' \<or>
      Contains outputStr ''Failed to merge'')"

text \<open>
  \<open>RebaseCommit\<close> returns \<open>(success, conflictDetected, error)\<close>. The result of
  \<open>AbortRebase\<close> is discarded (\<open>_ = rm.AbortRebase()\<close>).
\<close>

definition RebaseCommit ::
  "backend \<Rightarrow> string \<Rightarrow> string \<Rightarrow> call list \<Rightarrow> (bool \<times> bool \<times> error option) \<times> call list" where
  "RebaseCommit b repoPath commitHash log =
     (let (r, log1) = CombinedOutput b repoPath [''rebase'', commitHash] log
      in case snd r of
           Some err \<Rightarrow>
             (let outputStr = fst r
              in if isConflictOutput outputStr
                 then (let (_, log2) = AbortRebase b repoPath log1
                       in ((False, True, Some RebaseConflict), log2))
                 else ((False, False, Some (RebaseFailed err outputStr)), log1))
         | None \<Rightarrow> ((True, False, None), log1))"

section \<open>Command fanout: rebasing one worktree\<close>

text \<open>\<open>abortRebaseInWorktree\<close> runs the abort and drops its result (\<open>_ = cmd.Run()\<close>).\<close>

definition abortRebaseInWorktree :: "backend \<Rightarrow> string \<Rightarrow> call list \<Rightarrow> call list" where
  "abortRebaseInWorktree b worktreePath log =
     snd (CombinedOutput b worktreePath [''rebase'', ''--abort''] log)"

definition rebaseWorktree ::
  "backend \<Rightarrow> string \<Rightarrow> string \<Rightarrow> call list \<Rightarrow> (bool \<times> bool \<times> error option) \<times> call list" where
  "rebaseWorktree b worktreePath branch log =
     (let (r, log1) = CombinedOutput b worktreePath [''rebase'', branch] log
      in case snd r of
           Some e \<Rightarrow>
             (let outputStr = fst r
              in if isConflictOutput outputStr
                 then ((False, True, Some RebaseConflict),
                       abortRebaseInWorktree b worktreePath log1)
                 else ((False, False, Some (RebaseFailed e outputStr)), log1))
         | None \<Rightarrow> ((True, False, None), log1))"

section \<open>Package cmd: worktrees, input and output\<close>

record Worktree =
  Path :: string
  Branch :: string

text \<open>
  What the commands read besides the backend: the working directory (\<open>os.Getwd\<close>),
  the session manager's current branch and the worktree registry's listing. The last
  two are calls into packages that are not among the sources, so their results are
  inputs. \<open>Inl\<close> is the error return.
\<close>

record env =
  getwd :: "string option"
  managerCurrentBranch :: "error + string"
  worktreeList :: "error + Worktree list"

datatype icon = Yellow | Green | Gray

text \<open>
  One constructor for each line the commands print, with the values the line shows.
  Empty lines are left out; a line that shows a worktree's display name carries the
  worktree.
\<close>

datatype msg =
    ErrGetwd
  | ErrCurrentBranch error
  | ErrListWorktrees error
  | InfoNoWorktrees
  | ErrWorktreeNotFound string
  | InfoAvailableWorktrees
  | LineWorktree Worktree
  | ErrSelfRebase string
  | InfoRebasing Worktree string
  | ErrEmptyCommitMessage
  | InfoCommitting
  | ErrFailed error
  | SuccessRebased Worktree string
  | InfoPreserved string
  | InfoNoneAvailable
  | TitleSelect
  | LineChoice nat icon Worktree
  | PromptNumber
  | ErrInvalidSelection
  | InfoNoOtherWorktrees
  | TitlePlan
  | InfoSource string
  | InfoTargets nat
  | PlanDirty string string
  | WarnUncommitted
  | ErrStatusFailed string error
  | PlanAhead string string
  | WarnAhead string int
  | PlanSafe string string
  | NoteBehind int
  | NoteUpToDate
  | ErrCannotFanout nat
  | InfoPleaseFix
  | InfoNoWorktreesToFanout
  | TitleReady
  | WarnWillRebase nat string
  | InfoWillPreserve
  | PromptContinue
  | InfoCancelled
  | TitleProgress
  | InfoRebasingBranch string string
  | ErrConflictAborted
  | ErrStoppedConflict string
  | InfoResolveManually
  | ErrFailedWith error
  | ErrStopped string
  | ErrRebaseFailed
  | SuccessLine
  | TitleComplete
  | SuccessFannedOut nat
  | InfoAllSynchronized string

section \<open>Command fanout: the safety checks\<close>

text \<open>
  The body of the safety loop of \<open>fanoutBranches\<close> takes one of four exits for a
  worktree; \<open>verdict\<close> names them after the spec's SafetyVerdict. \<open>planLines\<close> is what
  the exit prints, and \<open>safetyChecks\<close> is the loop, which appends the branch of an
  unsafe worktree to \<open>unsafeWorktrees\<close> and a safe worktree to \<open>safeWorktrees\<close>.
\<close>

datatype verdict = UnsafeDirty | UnsafeError error | UnsafeAhead int | Safe int

definition checkWorktree ::
  "backend \<Rightarrow> string \<Rightarrow> Worktree \<Rightarrow> call list \<Rightarrow> verdict \<times> call list" where
  "checkWorktree b currentBranch wt log =
     (let (dirty, log1) = HasUncommittedChanges b (Path wt) log
      in if dirty then (UnsafeDirty, log1)
         else (let (r, log2) = GetCommitCountDifference b (Path wt) currentBranch log1
               in case r of
                    Inl err \<Rightarrow> (UnsafeError err, log2)
                  | Inr diff \<Rightarrow>
                      if diff > 0 then (UnsafeAhead diff, log2) else (Safe diff, log2)))"

definition planLines :: "string \<Rightarrow> Worktree \<Rightarrow> verdict \<Rightarrow> msg list" where
  "planLines currentBranch wt v =
     (case v of
        UnsafeDirty \<Rightarrow> [PlanDirty (Branch wt) (Path wt), WarnUncommitted]
      | UnsafeError err \<Rightarrow> [ErrStatusFailed (Branch wt) err]
      | UnsafeAhead diff \<Rightarrow> [PlanAhead (Branch wt) (Path wt), WarnAhead currentBranch diff]
      | Safe diff \<Rightarrow>
          [PlanSafe (Branch wt) (Path wt),
           if diff < 0 then NoteBehind (wrap64 (- diff)) else NoteUpToDate])"

fun safetyChecks ::
  "backend \<Rightarrow> string \<Rightarrow> Worktree list \<Rightarrow> call list \<Rightarrow>
     (msg list \<times> string list \<times> Worktree list) \<times> call list" where
  "safetyChecks b currentBranch [] log = (([], [], []), log)"
| "safetyChecks b currentBranch (wt # rest) log =
     (let (v, log1) = checkWorktree b currentBranch wt log;
          ((out, unsafeWorktrees, safeWorktrees), log2) =
            safetyChecks b currentBranch rest log1
      in case v of
           Safe diff \<Rightarrow>
             ((planLines currentBranch wt v @ out, unsafeWorktrees, wt # safeWorktrees), log2)
         | _ \<Rightarrow>
             ((planLines currentBranch wt v @ out, Branch wt # unsafeWorktrees, safeWorktrees),
              log2))"

section \<open>Command fanout: the rebase loop and the command\<close>

text \<open>
  The loop returns what it printed and \<open>Some successCount\<close> when it ran to its end;
  \<open>None\<close> is the \<open>return\<close> out of \<open>fanoutBranches\<close> from inside the loop.
\<close>

fun fanoutLoop ::
  "backend \<Rightarrow> string \<Rightarrow> Worktree list \<Rightarrow> nat \<Rightarrow> call list \<Rightarrow>
     (msg list \<times> nat option) \<times> call list" where
  "fanoutLoop b currentBranch [] successCount log = (([], Some successCount), log)"
| "fanoutLoop b currentBranch (wt # rest) successCount log =
     (let (res, log1) = rebaseWorktree b (Path wt) currentBranch log;
          success = fst res; hasConflict = fst (snd res); errMsg = snd (snd res);
          line = InfoRebasingBranch (Branch wt) currentBranch
      in case errMsg of
           Some e \<Rightarrow>
             if hasConflict
             then (([line, ErrConflictAborted, ErrStoppedConflict (Branch wt),
                     InfoResolveManually], None), log1)
             else (([line, ErrFailedWith e, ErrStopped (Branch wt)], None), log1)
         | None \<Rightarrow>
             if \<not> success then (([line, ErrRebaseFailed], None), log1)
             else (let ((out, r), log2) =
                         fanoutLoop b currentBranch rest (successCount + 1) log1
                   in ((line # SuccessLine # out, r), log2)))"

definition fanoutBranches :: "backend \<Rightarrow> env \<Rightarrow> string \<Rightarrow> msg list \<times> call list" where
  "fanoutBranches b e confirm =
     (case getwd e of
        None \<Rightarrow> ([ErrGetwd], [])
      | Some currentDir \<Rightarrow>
     (case managerCurrentBranch e of
        Inl err \<Rightarrow> ([ErrCurrentBranch err], [])
      | Inr currentBranch \<Rightarrow>
     (case worktreeList e of
        Inl err \<Rightarrow> ([ErrListWorktrees err], [])
      | Inr worktrees \<Rightarrow>
     (let targetWorktrees =
            filter (\<lambda>wt. Path wt \<noteq> currentDir \<and> Branch wt \<noteq> [] \<and>
                         Branch wt \<noteq> currentBranch) worktrees
      in if targetWorktrees = [] then ([InfoNoOtherWorktrees], [])
         else
     (let header = [TitlePlan, InfoSource currentBranch, InfoTargets (length targetWorktrees)];
          ((planOut, unsafeWorktrees, safeWorktrees), log1) =
            safetyChecks b currentBranch targetWorktrees []
      in if unsafeWorktrees \<noteq> []
         then (header @ planOut @
                 [ErrCannotFanout (length unsafeWorktrees), InfoPleaseFix], log1)
         else if safeWorktrees = []
         then (header @ planOut @ [InfoNoWorktreesToFanout], log1)
         else
     (let ready = [TitleReady, WarnWillRebase (length safeWorktrees) currentBranch,
                   InfoWillPreserve, PromptContinue]
      in if ToLower confirm \<noteq> ''yes''
         then (header @ planOut @ ready @ [InfoCancelled], log1)
         else
     (let ((progress, r), log2) = fanoutLoop b currentBranch safeWorktrees 0 log1;
          summary =
            (case r of
               None \<Rightarrow> []
             | Some successCount \<Rightarrow>
                 TitleComplete # SuccessFannedOut successCount #
                 (if successCount > 0 then [InfoAllSynchronized currentBranch] else []))
      in (header @ planOut @ ready @ [TitleProgress] @ progress @ summary, log2))))))))"

section \<open>Command rebase\<close>

text \<open>The two lookup loops of \<open>rebaseSession\<close>: the first match ends the loop.\<close>

fun findByPath :: "string \<Rightarrow> Worktree list \<Rightarrow> Worktree option" where
  "findByPath target [] = None"
| "findByPath target (wt # rest) =
     (if Path wt = target \<or> HasSuffix (Path wt) target then Some wt
      else findByPath target rest)"

fun findByBranch :: "string \<Rightarrow> Worktree list \<Rightarrow> Worktree option" where
  "findByBranch target [] = None"
| "findByBranch target (wt # rest) =
     (if Branch wt = target then Some wt else findByBranch target rest)"

text \<open>The status shown beside a choice of the interactive selector.\<close>

definition statusIcon ::
  "backend \<Rightarrow> string \<Rightarrow> Worktree \<Rightarrow> call list \<Rightarrow> icon \<times> call list" where
  "statusIcon b currentBranch wt log =
     (let (dirty, log1) = HasUncommittedChanges b (Path wt) log
      in if dirty then (Yellow, log1)
         else (let (r, log2) = GetCommitCountDifference b (Path wt) currentBranch log1
               in case r of
                    Inr diff \<Rightarrow> if diff > 0 then (Green, log2) else (Gray, log2)
                  | Inl err \<Rightarrow> (Gray, log2)))"

fun listChoices ::
  "backend \<Rightarrow> string \<Rightarrow> nat \<Rightarrow> Worktree list \<Rightarrow> call list \<Rightarrow> msg list \<times> call list" where
  "listChoices b currentBranch i [] log = ([], log)"
| "listChoices b currentBranch i (wt # rest) log =
     (let (ic, log1) = statusIcon b currentBranch wt log;
          (out, log2) = listChoices b currentBranch (i + 1) rest log1
      in (LineChoice (i + 1) ic wt # out, log2))"

text \<open>
  \<open>input\<close> is the line read from standard input, \<open>None\<close> when there is none. A failed
  \<open>git.GetCurrentBranch\<close> leaves the empty branch name (its error is dropped).
\<close>

definition selectWorktreeForRebase ::
  "backend \<Rightarrow> Worktree list \<Rightarrow> string \<Rightarrow> string option \<Rightarrow> call list \<Rightarrow>
     (msg list \<times> Worktree option) \<times> call list" where
  "selectWorktreeForRebase b worktrees currentDir input log =
     (let availableWorktrees =
            filter (\<lambda>wt. Path wt \<noteq> currentDir \<and> Branch wt \<noteq> []) worktrees
      in if availableWorktrees = [] then (([InfoNoneAvailable], None), log)
         else
     (let (cb, log1) = GetCurrentBranch b currentDir log;
          currentBranch = (case cb of Inl err \<Rightarrow> [] | Inr s \<Rightarrow> s);
          (lines, log2) = listChoices b currentBranch 0 availableWorktrees log1;
          out = TitleSelect # lines @ [PromptNumber]
      in case input of
           None \<Rightarrow> ((out, None), log2)
         | Some text \<Rightarrow>
             (let inp = TrimSpace text
              in if inp = ''q'' \<or> inp = [] then ((out, None), log2)
                 else (case Sscanf_d inp of
                         None \<Rightarrow> ((out @ [ErrInvalidSelection], None), log2)
                       | Some choice \<Rightarrow>
                           if choice < 1 \<or> choice > int (length availableWorktrees)
                           then ((out @ [ErrInvalidSelection], None), log2)
                           else ((out, Some (availableWorktrees ! nat (choice - 1))), log2)))))"

definition promptForCommitMessage :: "string option \<Rightarrow> string" where
  "promptForCommitMessage line = (case line of None \<Rightarrow> [] | Some t \<Rightarrow> TrimSpace t)"

text \<open>
  Lines 75 to 112 of \<open>rebaseSession\<close>: the target comes from the argument, by path or by
  branch name, or from the interactive selector when there is no argument.
\<close>

definition determineTarget ::
  "backend \<Rightarrow> Worktree list \<Rightarrow> string \<Rightarrow> string list \<Rightarrow> string option \<Rightarrow> call list \<Rightarrow>
     (msg list \<times> Worktree option) \<times> call list" where
  "determineTarget b worktrees currentDir args selection log =
     (case args of
        target # _ \<Rightarrow>
          (let found =
                 (if IsAbs target \<or> HasPrefix target ''.'' \<or> HasPrefix target ''~''
                  then findByPath target worktrees
                  else findByBranch target worktrees)
           in case found of
                None \<Rightarrow>
                  ((ErrWorktreeNotFound target # InfoAvailableWorktrees #
                    map LineWorktree worktrees, None), log)
              | Some wt \<Rightarrow> (([], Some wt), log))
      | [] \<Rightarrow> selectWorktreeForRebase b worktrees currentDir selection log)"

text \<open>
  \<open>manager.CommitAndRebaseSession\<close> is a method of package session, which is not among
  the sources: \<open>rebaseSession\<close> takes it as the parameter \<open>commitAndRebase\<close>, from the
  worktree's path, the commit message and the log to an error and the extended log.
\<close>

type_synonym commit_and_rebase =
  "string \<Rightarrow> string \<Rightarrow> call list \<Rightarrow> error option \<times> call list"

definition rebaseSession ::
  "backend \<Rightarrow> commit_and_rebase \<Rightarrow> env \<Rightarrow> string list \<Rightarrow> string option \<Rightarrow> string option \<Rightarrow>
     msg list \<times> call list" where
  "rebaseSession b commitAndRebase e args selection message =
     (case getwd e of
        None \<Rightarrow> ([ErrGetwd], [])
      | Some currentDir \<Rightarrow>
     (case managerCurrentBranch e of
        Inl err \<Rightarrow> ([ErrCurrentBranch err], [])
      | Inr currentBranch \<Rightarrow>
     (case worktreeList e of
        Inl err \<Rightarrow> ([ErrListWorktrees err], [])
      | Inr worktrees \<Rightarrow>
          if worktrees = [] then ([InfoNoWorktrees], [])
          else
     (let ((out, target), log1) = determineTarget b worktrees currentDir args selection []
      in case target of
           None \<Rightarrow> (out, log1)
         | Some targetWorktree \<Rightarrow>
             if Branch targetWorktree = currentBranch
             then (out @ [ErrSelfRebase currentBranch], log1)
             else
     (let out1 = out @ [InfoRebasing targetWorktree currentBranch];
          commitMessage = promptForCommitMessage message
      in if commitMessage = [] then (out1 @ [ErrEmptyCommitMessage], log1)
         else
     (let (err, log2) = commitAndRebase (Path targetWorktree) commitMessage log1
      in case err of
           Some er \<Rightarrow> (out1 @ [InfoCommitting, ErrFailed er], log2)
         | None \<Rightarrow>
             (out1 @ [InfoCommitting, SuccessRebased targetWorktree currentBranch,
                      InfoPreserved (Path targetWorktree)], log2)))))))"

text \<open>
  Modelled from the spec: \<open>session.Manager.CommitAndRebaseSession\<close>, whose source is
  missing. The spec gives its sequence: stage all, then commit with the message, then
  rebase the worktree onto the current branch; a failed step ends it, so that a failed
  commit is never followed by a rebase.
\<close>

definition CommitAndRebaseSession ::
  "backend \<Rightarrow> string \<Rightarrow> commit_and_rebase" where
  "CommitAndRebaseSession b currentBranch worktreePath commitMessage log =
     (let (e1, log1) = StageAll b worktreePath log
      in case e1 of
           Some er \<Rightarrow> (Some er, log1)
         | None \<Rightarrow>
             (let (e2, log2) = Commit b worktreePath commitMessage log1
              in case e2 of
                   Some er \<Rightarrow> (Some er, log2)
                 | None \<Rightarrow>
                     (let (res, log3) = RebaseCommit b worktreePath currentBranch log2
                      in (snd (snd res), log3))))"

section \<open>The spec's wording and the backends of the scenarios\<close>

text \<open>
  The spec words the conflict test as a case-insensitive match of the three markers.
  \<open>foldedConflictMarker\<close> follows those words, to be compared with
  \<open>isConflictOutput\<close>, which follows the sources.
\<close>

definition containsFold :: "string \<Rightarrow> string \<Rightarrow> bool" where
  "containsFold s sub = Contains (ToLower s) (ToLower sub)"

definition foldedConflictMarker :: "string \<Rightarrow> bool" where
  "foldedConflictMarker out =
     (containsFold out ''conflict'' \<or> containsFold out ''CONFLICT'' \<or>
      containsFold out ''Failed to merge'')"

text \<open>
  A backend whose rebase onto \<open>main\<close> stops on a content conflict and whose abort
  fails as well, and one whose rebase fails with a capitalised word in its output.
\<close>

definition conflictBackend :: backend where
  "conflictBackend log c =
     (if snd c = [''rebase'', ''main'']
      then (''CONFLICT (content): Merge conflict in file.txt'', Some (ExecError ''exit status 1''))
      else if snd c = [''rebase'', ''--abort'']
      then (''fatal: No rebase in progress?'', Some (ExecError ''exit status 128''))
      else ([], None))"

definition titleCaseBackend :: backend where
  "titleCaseBackend log c =
     (if snd c = [''rebase'', ''main'']
      then (''Merge Conflict in a.txt'', Some (ExecError ''exit status 1''))
      else ([], None))"

text \<open>
  Names for the calls the commands issue, and the count \<open>GetCommitCountDifference\<close>
  reads from the output of one \<open>rev-list --count\<close> (zero when nothing can be read).
\<close>

definition parseCount :: "string \<Rightarrow> int" where
  "parseCount out =
     (let t = TrimSpace out
      in if t \<noteq> [] then (case Sscanf_d t of Some v \<Rightarrow> v | None \<Rightarrow> 0) else 0)"

definition statusCall :: "string \<Rightarrow> call" where
  "statusCall dir = (dir, [''status'', ''--porcelain''])"

definition aheadCall :: "string \<Rightarrow> string \<Rightarrow> call" where
  "aheadCall dir base = (dir, [''rev-list'', ''--count'', base @ ''..HEAD''])"

definition behindCall :: "string \<Rightarrow> string \<Rightarrow> call" where
  "behindCall dir base = (dir, [''rev-list'', ''--count'', ''HEAD..'' @ base])"

definition rebaseCall :: "string \<Rightarrow> string \<Rightarrow> call" where
  "rebaseCall dir ref = (dir, [''rebase'', ref])"

definition abortCall :: "string \<Rightarrow> call" where
  "abortCall dir = (dir, [''rebase'', ''--abort''])"

text \<open>
  The verdicts of a list of worktrees, each checked on the log its predecessors left.
\<close>

definition isUnsafe :: "verdict \<Rightarrow> bool" where
  "isUnsafe v = (case v of Safe diff \<Rightarrow> False | _ \<Rightarrow> True)"

fun verdicts :: "backend \<Rightarrow> string \<Rightarrow> Worktree list \<Rightarrow> call list \<Rightarrow> (Worktree \<times> verdict) list" where
  "verdicts b currentBranch [] log = []"
| "verdicts b currentBranch (wt # rest) log =
     (wt, fst (checkWorktree b currentBranch wt log)) #
     verdicts b currentBranch rest (snd (checkWorktree b currentBranch wt log))"

text \<open>
  Backends for one worktree checked against \<open>main\<close>: one reports a modified file, one
  does not know the base branch, and one reports a branch that is one commit ahead of
  \<open>main\<close> and two behind it. The backend that answers every call with empty output and
  no error is written \<open>\<lambda>log c. ([], None)\<close>.
\<close>

definition dirtyBackend :: backend where
  "dirtyBackend log c =
     (if snd c = [''status'', ''--porcelain''] then ('' M file.txt'' @ [CHR 0x0A], None)
      else ([], None))"

definition noBaseBackend :: backend where
  "noBaseBackend log c =
     (if snd c = [''rev-list'', ''--count'', ''main..HEAD'']
      then (''fatal: bad revision'', Some (ExecError ''exit status 128''))
      else ([], None))"

definition divergedBackend :: backend where
  "divergedBackend log c =
     (if snd c = [''rev-list'', ''--count'', ''main..HEAD''] then (''1'' @ [CHR 0x0A], None)
      else if snd c = [''rev-list'', ''--count'', ''HEAD..main''] then (''2'' @ [CHR 0x0A], None)
      else ([], None))"

text \<open>A repository at \<open>/repo\<close> on \<open>main\<close>, and a worktree \<open>/w/a\<close> on branch \<open>a\<close>.\<close>

definition wtA :: Worktree where
  "wtA = \<lparr>Path = ''/w/a'', Branch = ''a''\<rparr>"

definition wtMain :: Worktree where
  "wtMain = \<lparr>Path = ''/repo'', Branch = ''main''\<rparr>"

definition repoEnv :: "Worktree list \<Rightarrow> env" where
  "repoEnv wts =
     \<lparr>getwd = Some ''/repo'', managerCurrentBranch = Inr ''main'', worktreeList = Inr wts\<rparr>"

text \<open>
  Every rebase of a list of worktrees succeeds when they are run in order from a log.
\<close>

fun rebasesSucceed :: "backend \<Rightarrow> string \<Rightarrow> Worktree list \<Rightarrow> call list \<Rightarrow> bool" where
  "rebasesSucceed b currentBranch [] log = True"
| "rebasesSucceed b currentBranch (wt # rest) log =
     (snd (b log (rebaseCall (Path wt) currentBranch)) = None \<and>
      rebasesSucceed b currentBranch rest (log @ [rebaseCall (Path wt) currentBranch]))"

text \<open>
  Three more worktrees, a backend for a plan with every verdict (\<open>a\<close> dirty, \<open>b\<close> two
  commits behind, \<open>c\<close> one commit ahead, \<open>e\<close> with a base branch the backend does not
  know), and a backend of a level repository whose rebase of \<open>b\<close> stops on a conflict.
\<close>

definition wtB :: Worktree where
  "wtB = \<lparr>Path = ''/w/b'', Branch = ''b''\<rparr>"

definition wtC :: Worktree where
  "wtC = \<lparr>Path = ''/w/c'', Branch = ''c''\<rparr>"

definition wtE :: Worktree where
  "wtE = \<lparr>Path = ''/w/e'', Branch = ''e''\<rparr>"

definition planBackend :: backend where
  "planBackend log c =
     (if c = (''/w/a'', [''status'', ''--porcelain'']) then ('' M file.txt'' @ [CHR 0x0A], None)
      else if c = (''/w/b'', [''rev-list'', ''--count'', ''HEAD..main'']) then (''2'' @ [CHR 0x0A], None)
      else if c = (''/w/c'', [''rev-list'', ''--count'', ''main..HEAD'']) then (''1'' @ [CHR 0x0A], None)
      else if c = (''/w/e'', [''rev-list'', ''--count'', ''main..HEAD''])
      then (''fatal: bad revision'', Some (ExecError ''exit status 128''))
      else if snd c = [''rev-list'', ''--count'', ''main..HEAD''] then (''0'' @ [CHR 0x0A], None)
      else if snd c = [''rev-list'', ''--count'', ''HEAD..main''] then (''0'' @ [CHR 0x0A], None)
      else ([], None))"

definition rebaseConflictBackend :: backend where
  "rebaseConflictBackend log c =
     (if c = (''/w/b'', [''rebase'', ''main''])
      then (''CONFLICT (content): Merge conflict in file.txt'', Some (ExecError ''exit status 1''))
      else ([], None))"

text \<open>
  Reading a report. \<open>readUnsafe\<close> collects the worktrees a report declares unsafe, each
  with the verdict its lines state: the line of a dirty worktree, the line of a failed
  inspection with its error, and the line of a worktree that is ahead together with the
  count on the line after it.
\<close>

fun readUnsafe :: "msg list \<Rightarrow> (string \<times> verdict) list" where
  "readUnsafe [] = []"
| "readUnsafe (m # rest) =
     (case m of
        PlanDirty br p \<Rightarrow> [(br, UnsafeDirty)]
      | ErrStatusFailed br err \<Rightarrow> [(br, UnsafeError err)]
      | PlanAhead br p \<Rightarrow>
          (case rest of
             WarnAhead c d # _ \<Rightarrow> [(br, UnsafeAhead d)]
           | _ \<Rightarrow> [])
      | _ \<Rightarrow> []) @ readUnsafe rest"

text \<open>
  The worktrees a report lists as safe in its plan, the branches it shows a rebase
  attempt for, the number of successes it shows, and the branches it says the fanout
  stopped at. \<open>failureLines\<close> are the lines the rebase loop prints for a failed rebase.
\<close>

definition plannedSafe :: "msg list \<Rightarrow> (string \<times> string) list" where
  "plannedSafe out = concat (map (\<lambda>m. case m of PlanSafe br p \<Rightarrow> [(br, p)] | _ \<Rightarrow> []) out)"

definition attempted :: "msg list \<Rightarrow> string list" where
  "attempted out =
     concat (map (\<lambda>m. case m of InfoRebasingBranch br c \<Rightarrow> [br] | _ \<Rightarrow> []) out)"

definition succeeded :: "msg list \<Rightarrow> nat" where
  "succeeded out = length (filter (\<lambda>m. m = SuccessLine) out)"

definition stoppedAt :: "msg list \<Rightarrow> string list" where
  "stoppedAt out =
     concat (map (\<lambda>m. case m of
                          ErrStoppedConflict br \<Rightarrow> [br]
                        | ErrStopped br \<Rightarrow> [br]
                        | _ \<Rightarrow> []) out)"

definition failureLines :: "Worktree \<Rightarrow> string \<Rightarrow> error \<Rightarrow> string \<Rightarrow> msg list" where
  "failureLines wt cur e out =
     InfoRebasingBranch (Branch wt) cur #
     (if isConflictOutput out
      then [ErrConflictAborted, ErrStoppedConflict (Branch wt), InfoResolveManually]
      else [ErrFailedWith (RebaseFailed e out), ErrStopped (Branch wt)])"

text \<open>
  The query for the current branch, and the arguments that \<open>rebaseSession\<close> looks up as
  a path, in the claim's words: those that begin with a slash, a dot or a tilde.
\<close>

definition branchCall :: "string \<Rightarrow> call" where
  "branchCall dir = (dir, [''branch'', ''--show-current''])"

definition pathLike :: "string \<Rightarrow> bool" where
  "pathLike target =
     (target \<noteq> [] \<and> hd target \<in> {CHR ''/'', CHR ''.'', CHR ''~''})"

text \<open>
  A backend of a quiet repository on \<open>main\<close>: every worktree is clean and level with
  \<open>main\<close>, and every command succeeds. \<open>wtD\<close> is a worktree with a detached head,
  whose branch name is empty.
\<close>

definition quietBackend :: backend where
  "quietBackend log c =
     (if snd c = [''branch'', ''--show-current''] then (''main'' @ [CHR 0x0A], None)
      else ([], None))"

definition wtD :: Worktree where
  "wtD = \<lparr>Path = ''/w/d'', Branch = []\<rparr>"

text \<open>
  A commit message of blanks only: a no-break space (U+00A0), an ideographic space
  (U+3000) and a space.
\<close>

definition blankMessage :: string where
  "blankMessage = [CHR 0xC2, CHR 0xA0, CHR 0xE3, CHR 0x80, CHR 0x80, CHR 0x20]"

section \<open>Facts about the string functions\<close>

lemma HasPrefix_iff: "HasPrefix s p \<longleftrightarrow> prefix p s"
  by (induction s p rule: HasPrefix.induct) auto

lemma HasSuffix_iff: "HasSuffix s suf \<longleftrightarrow> suffix suf s"
proof
  assume "HasSuffix s suf"
  then have "drop (length s - length suf) s = suf" by (simp add: HasSuffix_def)
  then show "suffix suf s" by (metis suffix_drop)
next
  assume "suffix suf s"
  then obtain p where "s = p @ suf" by (auto simp: suffix_def)
  then show "HasSuffix s suf" by (simp add: HasSuffix_def)
qed

lemma Contains_iff: "Contains s sub \<longleftrightarrow> sublist sub s"
proof (induction s)
  case Nil
  show ?case by simp
next
  case (Cons c cs)
  show ?case by (simp add: Cons.IH HasPrefix_iff sublist_Cons_right del: HasPrefix.simps)
qed

section \<open>Rebasing one worktree\<close>

lemma isConflictOutput_iff:
  "isConflictOutput out \<longleftrightarrow>
     sublist ''conflict'' out \<or> sublist ''CONFLICT'' out \<or> sublist ''Failed to merge'' out"
  by (simp only: isConflictOutput_def Contains_iff)

lemma rebaseWorktree_failed:
  assumes "b log (dir, [''rebase'', ref]) = (out, Some e)"
  shows "rebaseWorktree b dir ref log =
           (if isConflictOutput out
            then ((False, True, Some RebaseConflict),
                  log @ [(dir, [''rebase'', ref]), (dir, [''rebase'', ''--abort''])])
            else ((False, False, Some (RebaseFailed e out)), log @ [(dir, [''rebase'', ref])]))"
  using assms by (simp add: rebaseWorktree_def CombinedOutput_def abortRebaseInWorktree_def)

lemma rebaseWorktree_ok:
  assumes "snd (b log (dir, [''rebase'', ref])) = None"
  shows "rebaseWorktree b dir ref log = ((True, False, None), log @ [(dir, [''rebase'', ref])])"
  using assms by (simp add: rebaseWorktree_def CombinedOutput_def)

lemma RebaseCommit_failed:
  assumes "b log (dir, [''rebase'', ref]) = (out, Some e)"
  shows "RebaseCommit b dir ref log =
           (if isConflictOutput out
            then ((False, True, Some RebaseConflict),
                  log @ [(dir, [''rebase'', ref]), (dir, [''rebase'', ''--abort''])])
            else ((False, False, Some (RebaseFailed e out)), log @ [(dir, [''rebase'', ref])]))"
  using assms
  by (simp add: RebaseCommit_def CombinedOutput_def AbortRebase_def split: option.split)

text \<open>
  Claim C4, as amended. When the rebase command fails, both rebase functions report a
  conflict exactly when the captured output contains, as written and with the case of
  every letter respected, one of the substrings \<open>conflict\<close>, \<open>CONFLICT\<close> or
  \<open>Failed to merge\<close>. A failed rebase whose output contains none of them returns the
  error that wraps the backend's error and the output unchanged, after the one rebase
  call.
\<close>

theorem conflict_classification_case_sensitive:
  assumes "b log (dir, [''rebase'', ref]) = (out, Some e)"
  shows "(fst (snd (fst (rebaseWorktree b dir ref log))) \<longleftrightarrow>
            sublist ''conflict'' out \<or> sublist ''CONFLICT'' out \<or> sublist ''Failed to merge'' out)
       \<and> (fst (snd (fst (RebaseCommit b dir ref log))) \<longleftrightarrow>
            sublist ''conflict'' out \<or> sublist ''CONFLICT'' out \<or> sublist ''Failed to merge'' out)
       \<and> (\<not> (sublist ''conflict'' out \<or> sublist ''CONFLICT'' out \<or> sublist ''Failed to merge'' out)
            \<longrightarrow> rebaseWorktree b dir ref log =
                  ((False, False, Some (RebaseFailed e out)), log @ [(dir, [''rebase'', ref])])
              \<and> RebaseCommit b dir ref log =
                  ((False, False, Some (RebaseFailed e out)), log @ [(dir, [''rebase'', ref])]))"
  using rebaseWorktree_failed [of b log dir ref out e] RebaseCommit_failed [of b log dir ref out e]
    assms
  by (simp add: isConflictOutput_iff)

theorem conflict_classification_case_sensitive_witness:
  "titleCaseBackend [] (''/w/a'', [''rebase'', ''main'']) =
     (''Merge Conflict in a.txt'', Some (ExecError ''exit status 1''))
   \<and> \<not> sublist ''conflict'' ''Merge Conflict in a.txt''
   \<and> \<not> sublist ''CONFLICT'' ''Merge Conflict in a.txt''
   \<and> \<not> sublist ''Failed to merge'' ''Merge Conflict in a.txt''
   \<and> rebaseWorktree titleCaseBackend ''/w/a'' ''main'' [] =
       ((False, False,
         Some (RebaseFailed (ExecError ''exit status 1'') ''Merge Conflict in a.txt'')),
        [(''/w/a'', [''rebase'', ''main''])])
   \<and> conflictBackend [] (''/w/a'', [''rebase'', ''main'']) =
       (''CONFLICT (content): Merge conflict in file.txt'', Some (ExecError ''exit status 1''))
   \<and> fst (snd (fst (rebaseWorktree conflictBackend ''/w/a'' ''main'' [])))"
proof -
  have a: "titleCaseBackend [] (''/w/a'', [''rebase'', ''main'']) =
     (''Merge Conflict in a.txt'', Some (ExecError ''exit status 1''))"
    by (simp add: titleCaseBackend_def)
  have c: "conflictBackend [] (''/w/a'', [''rebase'', ''main'']) =
       (''CONFLICT (content): Merge conflict in file.txt'', Some (ExecError ''exit status 1''))"
    by (simp add: conflictBackend_def)
  have n: "\<not> isConflictOutput ''Merge Conflict in a.txt''"
    by (simp add: isConflictOutput_def)
  have y: "isConflictOutput ''CONFLICT (content): Merge conflict in file.txt''"
    by (simp add: isConflictOutput_def)
  show ?thesis
    using conflict_classification_case_sensitive [of titleCaseBackend "[]" "''/w/a''" "''main''"
        "''Merge Conflict in a.txt''" "ExecError ''exit status 1''"]
      conflict_classification_case_sensitive [of conflictBackend "[]" "''/w/a''" "''main''"
        "''CONFLICT (content): Merge conflict in file.txt''" "ExecError ''exit status 1''"]
      a c n y
    by (simp add: isConflictOutput_iff)
qed

text \<open>
  Claim C4 as the spec words it fails: the output \<open>Merge Conflict in a.txt\<close> holds a
  marker under case-insensitive matching, and both functions return the non-conflict
  failure for it.
\<close>

theorem conflict_case_insensitive_counterexample:
  "titleCaseBackend [] (''/w/a'', [''rebase'', ''main'']) =
     (''Merge Conflict in a.txt'', Some (ExecError ''exit status 1''))
   \<and> foldedConflictMarker ''Merge Conflict in a.txt''
   \<and> rebaseWorktree titleCaseBackend ''/w/a'' ''main'' [] =
       ((False, False,
         Some (RebaseFailed (ExecError ''exit status 1'') ''Merge Conflict in a.txt'')),
        [(''/w/a'', [''rebase'', ''main''])])
   \<and> RebaseCommit titleCaseBackend ''/w/a'' ''main'' [] =
       ((False, False,
         Some (RebaseFailed (ExecError ''exit status 1'') ''Merge Conflict in a.txt'')),
        [(''/w/a'', [''rebase'', ''main''])])"
  by (simp add: titleCaseBackend_def foldedConflictMarker_def containsFold_def ToLower_def
      toLowerChar_def lowerTable_def rebaseWorktree_def RebaseCommit_def CombinedOutput_def
      isConflictOutput_def)

text \<open>
  Claim C5. When a failed rebase is classified as a conflict, the calls issued are the
  rebase and then exactly one \<open>rebase --abort\<close> in the same worktree, and the result is
  the conflict outcome. This holds for every backend, so whatever the abort itself
  answers: its result is dropped.
\<close>

theorem conflict_aborts_once:
  assumes "b log (dir, [''rebase'', ref]) = (out, Some e)" and "isConflictOutput out"
  shows "rebaseWorktree b dir ref log =
           ((False, True, Some RebaseConflict),
            log @ [(dir, [''rebase'', ref]), (dir, [''rebase'', ''--abort''])])
       \<and> RebaseCommit b dir ref log =
           ((False, True, Some RebaseConflict),
            log @ [(dir, [''rebase'', ref]), (dir, [''rebase'', ''--abort''])])"
  using rebaseWorktree_failed [of b log dir ref out e] RebaseCommit_failed [of b log dir ref out e]
    assms
  by simp

theorem conflict_aborts_once_witness:
  "conflictBackend [] (''/w/a'', [''rebase'', ''main'']) =
       (''CONFLICT (content): Merge conflict in file.txt'', Some (ExecError ''exit status 1''))
   \<and> isConflictOutput ''CONFLICT (content): Merge conflict in file.txt''
   \<and> snd (conflictBackend [(''/w/a'', [''rebase'', ''main''])] (''/w/a'', [''rebase'', ''--abort'']))
       = Some (ExecError ''exit status 128'')
   \<and> rebaseWorktree conflictBackend ''/w/a'' ''main'' [] =
       ((False, True, Some RebaseConflict),
        [(''/w/a'', [''rebase'', ''main'']), (''/w/a'', [''rebase'', ''--abort''])])
   \<and> RebaseCommit conflictBackend ''/w/a'' ''main'' [] =
       ((False, True, Some RebaseConflict),
        [(''/w/a'', [''rebase'', ''main'']), (''/w/a'', [''rebase'', ''--abort''])])"
proof -
  have c: "conflictBackend [] (''/w/a'', [''rebase'', ''main'']) =
       (''CONFLICT (content): Merge conflict in file.txt'', Some (ExecError ''exit status 1''))"
    by (simp add: conflictBackend_def)
  have y: "isConflictOutput ''CONFLICT (content): Merge conflict in file.txt''"
    by (simp add: isConflictOutput_def)
  have ab: "snd (conflictBackend [(''/w/a'', [''rebase'', ''main''])] (''/w/a'', [''rebase'', ''--abort'']))
       = Some (ExecError ''exit status 128'')"
    by (simp add: conflictBackend_def)
  show ?thesis
    using conflict_aborts_once [of conflictBackend "[]" "''/w/a''" "''main''"
        "''CONFLICT (content): Merge conflict in file.txt''" "ExecError ''exit status 1''"]
      c y ab by simp
qed

section \<open>The safety checks\<close>

lemma HasUncommittedChanges_eq:
  "HasUncommittedChanges b dir log =
     (snd (b log (statusCall dir)) = None \<and> TrimSpace (fst (b log (statusCall dir))) \<noteq> [],
      log @ [statusCall dir])"
  by (simp add: HasUncommittedChanges_def CombinedOutput_def statusCall_def)

lemma GetCommitCountDifference_eq:
  "GetCommitCountDifference b dir base log =
     (case snd (b log (aheadCall dir base)) of
        Some e \<Rightarrow> (Inl e, log @ [aheadCall dir base])
      | None \<Rightarrow>
          (case snd (b (log @ [aheadCall dir base]) (behindCall dir base)) of
             Some e \<Rightarrow> (Inl e, log @ [aheadCall dir base, behindCall dir base])
           | None \<Rightarrow>
               (Inr (wrap64 (parseCount (fst (b log (aheadCall dir base))) -
                             parseCount (fst (b (log @ [aheadCall dir base])
                                                (behindCall dir base))))),
                log @ [aheadCall dir base, behindCall dir base])))"
  by (simp add: GetCommitCountDifference_def CombinedOutput_def aheadCall_def behindCall_def
      parseCount_def Let_def split: option.split)

lemma isMutation_queries [simp]:
  "\<not> isMutation (snd (statusCall dir))"
  "\<not> isMutation (snd (aheadCall dir base))"
  "\<not> isMutation (snd (behindCall dir base))"
  by (simp_all add: isMutation_def statusCall_def aheadCall_def behindCall_def)

lemma fst_queries [simp]:
  "fst (statusCall dir) = dir"
  "fst (aheadCall dir base) = dir"
  "fst (behindCall dir base) = dir"
  "fst (rebaseCall dir base) = dir"
  "fst (abortCall dir) = dir"
  by (simp_all add: statusCall_def aheadCall_def behindCall_def rebaseCall_def abortCall_def)

lemma GetCommitCountDifference_log:
  "\<exists>ext. snd (GetCommitCountDifference b dir base log) = log @ ext \<and>
         (\<forall>c\<in>set ext. fst c = dir \<and> \<not> isMutation (snd c))"
  by (auto simp: GetCommitCountDifference_eq split: option.split)

lemma checkWorktree_log:
  "\<exists>ext. snd (checkWorktree b cur wt log) = log @ ext \<and>
         (\<forall>c\<in>set ext. fst c = Path wt \<and> \<not> isMutation (snd c))"
proof (cases "fst (HasUncommittedChanges b (Path wt) log)")
  case True
  then have "snd (checkWorktree b cur wt log) = log @ [statusCall (Path wt)]"
    by (simp add: checkWorktree_def HasUncommittedChanges_eq)
  then show ?thesis by simp
next
  case False
  obtain ext where ext:
    "snd (GetCommitCountDifference b (Path wt) cur (log @ [statusCall (Path wt)])) =
       (log @ [statusCall (Path wt)]) @ ext"
    "\<forall>c\<in>set ext. fst c = Path wt \<and> \<not> isMutation (snd c)"
    using GetCommitCountDifference_log by blast
  obtain r log2 where g:
    "GetCommitCountDifference b (Path wt) cur (log @ [statusCall (Path wt)]) = (r, log2)"
    by (cases "GetCommitCountDifference b (Path wt) cur (log @ [statusCall (Path wt)])")
  from False have d: "HasUncommittedChanges b (Path wt) log = (False, log @ [statusCall (Path wt)])"
    by (simp add: HasUncommittedChanges_eq)
  have "snd (checkWorktree b cur wt log) =
      snd (GetCommitCountDifference b (Path wt) cur (log @ [statusCall (Path wt)]))"
    by (cases r) (simp_all add: checkWorktree_def d g)
  with ext have "snd (checkWorktree b cur wt log) = log @ (statusCall (Path wt) # ext)"
    by simp
  moreover have "\<forall>c\<in>set (statusCall (Path wt) # ext). fst c = Path wt \<and> \<not> isMutation (snd c)"
    using ext(2) by simp
  ultimately show ?thesis by blast
qed

lemma safetyChecks_eq:
  "safetyChecks b cur wts log =
     ((concat (map (\<lambda>p. planLines cur (fst p) (snd p)) (verdicts b cur wts log)),
       map (\<lambda>p. Branch (fst p)) (filter (\<lambda>p. isUnsafe (snd p)) (verdicts b cur wts log)),
       map fst (filter (\<lambda>p. \<not> isUnsafe (snd p)) (verdicts b cur wts log))),
      snd (safetyChecks b cur wts log))"
proof (induction wts arbitrary: log)
  case Nil
  show ?case by simp
next
  case (Cons wt rest)
  obtain v log1 where cw: "checkWorktree b cur wt log = (v, log1)" by (cases "checkWorktree b cur wt log")
  obtain out us sf log2 where sc: "safetyChecks b cur rest log1 = ((out, us, sf), log2)"
    by (cases "safetyChecks b cur rest log1") auto
  from Cons.IH [of log1] sc have ih:
    "out = concat (map (\<lambda>p. planLines cur (fst p) (snd p)) (verdicts b cur rest log1))"
    "us = map (\<lambda>p. Branch (fst p)) (filter (\<lambda>p. isUnsafe (snd p)) (verdicts b cur rest log1))"
    "sf = map fst (filter (\<lambda>p. \<not> isUnsafe (snd p)) (verdicts b cur rest log1))"
    by simp_all
  show ?case
    by (cases v) (simp_all add: cw sc ih isUnsafe_def)
qed

lemma safetyChecks_log:
  "\<exists>ext. snd (safetyChecks b cur wts log) = log @ ext \<and>
         (\<forall>c\<in>set ext. fst c \<in> Path ` set wts \<and> \<not> isMutation (snd c))"
proof (induction wts arbitrary: log)
  case Nil
  show ?case by simp
next
  case (Cons wt rest)
  obtain v log1 where cw: "checkWorktree b cur wt log = (v, log1)" by (cases "checkWorktree b cur wt log")
  obtain ext1 where e1: "log1 = log @ ext1" "\<forall>c\<in>set ext1. fst c = Path wt \<and> \<not> isMutation (snd c)"
    using checkWorktree_log [of b cur wt log] cw by auto
  obtain ext2 where e2: "snd (safetyChecks b cur rest log1) = log1 @ ext2"
    "\<forall>c\<in>set ext2. fst c \<in> Path ` set rest \<and> \<not> isMutation (snd c)"
    using Cons.IH [of log1] by blast
  have "snd (safetyChecks b cur (wt # rest) log) = snd (safetyChecks b cur rest log1)"
    by (cases v) (simp_all add: cw split: prod.split)
  then have "snd (safetyChecks b cur (wt # rest) log) = log @ (ext1 @ ext2)"
    using e1(1) e2(1) by simp
  moreover have "\<forall>c\<in>set (ext1 @ ext2). fst c \<in> Path ` set (wt # rest) \<and> \<not> isMutation (snd c)"
    using e1(2) e2(2) by auto
  ultimately show ?case by blast
qed

lemma checkWorktree_dirty:
  assumes "fst (HasUncommittedChanges b (Path wt) log)"
  shows "checkWorktree b cur wt log = (UnsafeDirty, log @ [statusCall (Path wt)])"
  using assms by (simp add: checkWorktree_def HasUncommittedChanges_eq)

lemma checkWorktree_clean:
  assumes "\<not> fst (HasUncommittedChanges b (Path wt) log)"
    and "GetCommitCountDifference b (Path wt) cur (log @ [statusCall (Path wt)]) = (r, log2)"
  shows "checkWorktree b cur wt log =
           (case r of
              Inl e \<Rightarrow> (UnsafeError e, log2)
            | Inr diff \<Rightarrow> (if diff > 0 then UnsafeAhead diff else Safe diff, log2))"
proof -
  from assms(1) have d:
    "HasUncommittedChanges b (Path wt) log = (False, log @ [statusCall (Path wt)])"
    by (simp add: HasUncommittedChanges_eq)
  show ?thesis
    by (cases r) (simp_all add: checkWorktree_def d assms(2))
qed

lemma fanoutBranches_planned:
  assumes "getwd e = Some currentDir" and "managerCurrentBranch e = Inr cur"
    and "worktreeList e = Inr wts"
    and "filter (\<lambda>wt. Path wt \<noteq> currentDir \<and> Branch wt \<noteq> [] \<and> Branch wt \<noteq> cur) wts = targets"
    and "targets \<noteq> []"
    and "safetyChecks b cur targets [] = ((planOut, us, sf), log1)"
  shows "fanoutBranches b e confirm =
     (if us \<noteq> []
      then ([TitlePlan, InfoSource cur, InfoTargets (length targets)] @ planOut @
              [ErrCannotFanout (length us), InfoPleaseFix], log1)
      else if sf = []
      then ([TitlePlan, InfoSource cur, InfoTargets (length targets)] @ planOut @
              [InfoNoWorktreesToFanout], log1)
      else if ToLower confirm \<noteq> ''yes''
      then ([TitlePlan, InfoSource cur, InfoTargets (length targets)] @ planOut @
              [TitleReady, WarnWillRebase (length sf) cur, InfoWillPreserve, PromptContinue] @
              [InfoCancelled], log1)
      else ([TitlePlan, InfoSource cur, InfoTargets (length targets)] @ planOut @
              [TitleReady, WarnWillRebase (length sf) cur, InfoWillPreserve, PromptContinue] @
              [TitleProgress] @ fst (fst (fanoutLoop b cur sf 0 log1)) @
              (case snd (fst (fanoutLoop b cur sf 0 log1)) of
                 None \<Rightarrow> []
               | Some successCount \<Rightarrow>
                   TitleComplete # SuccessFannedOut successCount #
                   (if successCount > 0 then [InfoAllSynchronized cur] else [])),
            snd (fanoutLoop b cur sf 0 log1)))"
  unfolding fanoutBranches_def
  by (simp only: assms option.case sum.case Let_def prod.case if_False if_True split_beta fst_conv snd_conv)

text \<open>
  Claim C6. The check of one worktree runs in order and the first match wins. A dirty
  worktree gets the verdict UnsafeDirty after the status query alone: no history query
  is issued for it. A clean worktree whose divergence query fails gets UnsafeError. A
  clean worktree whose divergence query succeeds gets its verdict from the ahead check,
  and only such a worktree does: a verdict UnsafeAhead or Safe means that the worktree
  was clean and the query returned the difference the verdict carries.
\<close>

theorem safety_check_order:
  "(fst (HasUncommittedChanges b (Path wt) log) \<longrightarrow>
      checkWorktree b cur wt log = (UnsafeDirty, log @ [statusCall (Path wt)]))
   \<and> (\<not> fst (HasUncommittedChanges b (Path wt) log) \<longrightarrow>
      (\<forall>e log2.
         GetCommitCountDifference b (Path wt) cur (log @ [statusCall (Path wt)]) = (Inl e, log2)
         \<longrightarrow> checkWorktree b cur wt log = (UnsafeError e, log2))
      \<and> (\<forall>diff log2.
         GetCommitCountDifference b (Path wt) cur (log @ [statusCall (Path wt)]) = (Inr diff, log2)
         \<longrightarrow> checkWorktree b cur wt log =
               (if diff > 0 then UnsafeAhead diff else Safe diff, log2)))
   \<and> (\<forall>diff. fst (checkWorktree b cur wt log) = UnsafeAhead diff \<or>
               fst (checkWorktree b cur wt log) = Safe diff \<longrightarrow>
         \<not> fst (HasUncommittedChanges b (Path wt) log) \<and>
         fst (GetCommitCountDifference b (Path wt) cur (log @ [statusCall (Path wt)])) = Inr diff)"
proof (cases "fst (HasUncommittedChanges b (Path wt) log)")
  case True
  then show ?thesis using checkWorktree_dirty [of b wt log cur] by simp
next
  case False
  obtain r log2 where g:
    "GetCommitCountDifference b (Path wt) cur (log @ [statusCall (Path wt)]) = (r, log2)"
    by (cases "GetCommitCountDifference b (Path wt) cur (log @ [statusCall (Path wt)])")
  show ?thesis
    using False checkWorktree_clean [OF False g] g
    by (cases r) (auto split: if_splits)
qed

theorem safety_check_order_witness:
  "fst (HasUncommittedChanges dirtyBackend (Path wtA) [])
   \<and> checkWorktree dirtyBackend ''main'' wtA [] = (UnsafeDirty, [statusCall ''/w/a''])
   \<and> \<not> fst (HasUncommittedChanges noBaseBackend (Path wtA) [])
   \<and> GetCommitCountDifference noBaseBackend (Path wtA) ''main'' [statusCall ''/w/a''] =
       (Inl (ExecError ''exit status 128''), [statusCall ''/w/a'', aheadCall ''/w/a'' ''main''])
   \<and> checkWorktree noBaseBackend ''main'' wtA [] =
       (UnsafeError (ExecError ''exit status 128''),
        [statusCall ''/w/a'', aheadCall ''/w/a'' ''main''])
   \<and> \<not> fst (HasUncommittedChanges (\<lambda>log c. ([], None)) (Path wtA) [])
   \<and> GetCommitCountDifference (\<lambda>log c. ([], None)) (Path wtA) ''main'' [statusCall ''/w/a''] =
       (Inr 0, [statusCall ''/w/a'', aheadCall ''/w/a'' ''main'', behindCall ''/w/a'' ''main''])
   \<and> checkWorktree (\<lambda>log c. ([], None)) ''main'' wtA [] =
       (Safe 0, [statusCall ''/w/a'', aheadCall ''/w/a'' ''main'', behindCall ''/w/a'' ''main''])"
proof -
  have p: "Path wtA = ''/w/a''" by (simp add: wtA_def)
  have d: "fst (HasUncommittedChanges dirtyBackend (Path wtA) [])"
    by (simp add: p HasUncommittedChanges_eq dirtyBackend_def statusCall_def TrimSpace_def
        spaceRunes_def)
  have c1: "\<not> fst (HasUncommittedChanges noBaseBackend (Path wtA) [])"
    by (simp add: p HasUncommittedChanges_eq noBaseBackend_def statusCall_def TrimSpace_def spaceRunes_def)
  have g1: "GetCommitCountDifference noBaseBackend (Path wtA) ''main'' ([] @ [statusCall (Path wtA)]) =
       (Inl (ExecError ''exit status 128''), [statusCall ''/w/a'', aheadCall ''/w/a'' ''main''])"
    by (simp add: p GetCommitCountDifference_eq noBaseBackend_def aheadCall_def)
  have c2: "\<not> fst (HasUncommittedChanges (\<lambda>log c. ([], None)) (Path wtA) [])"
    by (simp add: p HasUncommittedChanges_eq TrimSpace_def spaceRunes_def)
  have g2: "GetCommitCountDifference (\<lambda>log c. ([], None)) (Path wtA) ''main'' ([] @ [statusCall (Path wtA)]) =
       (Inr 0, [statusCall ''/w/a'', aheadCall ''/w/a'' ''main'', behindCall ''/w/a'' ''main''])"
    by (simp add: p GetCommitCountDifference_eq parseCount_def TrimSpace_def spaceRunes_def wrap64_def)
  have r1: "checkWorktree dirtyBackend ''main'' wtA [] = (UnsafeDirty, [] @ [statusCall (Path wtA)])"
    using safety_check_order [of dirtyBackend wtA "[]" "''main''"] d by blast
  have r2: "checkWorktree noBaseBackend ''main'' wtA [] =
       (UnsafeError (ExecError ''exit status 128''),
        [statusCall ''/w/a'', aheadCall ''/w/a'' ''main''])"
    using safety_check_order [of noBaseBackend wtA "[]" "''main''"] c1 g1 by blast
  have r3: "checkWorktree (\<lambda>log c. ([], None)) ''main'' wtA [] =
       (if (0::int) > 0 then UnsafeAhead 0 else Safe 0,
        [statusCall ''/w/a'', aheadCall ''/w/a'' ''main'', behindCall ''/w/a'' ''main''])"
    using safety_check_order [of "\<lambda>log c. ([], None)" wtA "[]" "''main''"] c2 g2 by blast
  have g1': "GetCommitCountDifference noBaseBackend (Path wtA) ''main'' [statusCall ''/w/a''] =
       (Inl (ExecError ''exit status 128''), [statusCall ''/w/a'', aheadCall ''/w/a'' ''main''])"
    using g1 by (simp add: p)
  have g2': "GetCommitCountDifference (\<lambda>log c. ([], None)) (Path wtA) ''main'' [statusCall ''/w/a''] =
       (Inr 0, [statusCall ''/w/a'', aheadCall ''/w/a'' ''main'', behindCall ''/w/a'' ''main''])"
    using g2 by (simp add: p)
  have r1': "checkWorktree dirtyBackend ''main'' wtA [] = (UnsafeDirty, [statusCall ''/w/a''])"
    using r1 by (simp add: p)
  have r3': "checkWorktree (\<lambda>log c. ([], None)) ''main'' wtA [] =
       (Safe 0, [statusCall ''/w/a'', aheadCall ''/w/a'' ''main'', behindCall ''/w/a'' ''main''])"
    using r3 by simp
  show ?thesis
    by (intro conjI d r1' c1 g1' r2 c2 g2' r3')
qed

text \<open>
  Claim C1, at a worktree that is one commit ahead of \<open>main\<close> and two behind it: the
  two counts are read as 1 and 2, the check answers Safe with the net difference -1, and
  a confirmed fanout goes on to rebase the worktree.
\<close>

theorem diverged_worktree_passes_ahead_check:
  "parseCount (fst (divergedBackend [statusCall ''/w/a''] (aheadCall ''/w/a'' ''main''))) = 1
   \<and> parseCount (fst (divergedBackend [statusCall ''/w/a'', aheadCall ''/w/a'' ''main'']
                        (behindCall ''/w/a'' ''main''))) = 2
   \<and> checkWorktree divergedBackend ''main'' wtA [] =
       (Safe (- 1), [statusCall ''/w/a'', aheadCall ''/w/a'' ''main'', behindCall ''/w/a'' ''main''])
   \<and> snd (fanoutBranches divergedBackend (repoEnv [wtMain, wtA]) ''yes'') =
       [statusCall ''/w/a'', aheadCall ''/w/a'' ''main'', behindCall ''/w/a'' ''main'',
        rebaseCall ''/w/a'' ''main'']"
proof -
  have a: "parseCount (''1'' @ [CHR 0x0A]) = 1"
    by (simp add: parseCount_def TrimSpace_def spaceRunes_def Sscanf_d_def scanInt_def
        scanNumber_def digitVal_def inInt64_def)
  have bh: "parseCount (''2'' @ [CHR 0x0A]) = 2"
    by (simp add: parseCount_def TrimSpace_def spaceRunes_def Sscanf_d_def scanInt_def
        scanNumber_def digitVal_def inInt64_def)
  have e: "parseCount [] = 0" by (simp add: parseCount_def TrimSpace_def spaceRunes_def)
  have c: "checkWorktree divergedBackend ''main'' wtA [] =
       (Safe (- 1), [statusCall ''/w/a'', aheadCall ''/w/a'' ''main'', behindCall ''/w/a'' ''main''])"
    using a bh
    by (simp add: checkWorktree_def HasUncommittedChanges_eq GetCommitCountDifference_eq
        divergedBackend_def wtA_def statusCall_def aheadCall_def behindCall_def TrimSpace_def spaceRunes_def
        wrap64_def)
  have r: "rebaseWorktree divergedBackend ''/w/a'' ''main''
             [statusCall ''/w/a'', aheadCall ''/w/a'' ''main'', behindCall ''/w/a'' ''main''] =
           ((True, False, None),
            [statusCall ''/w/a'', aheadCall ''/w/a'' ''main'', behindCall ''/w/a'' ''main'',
             rebaseCall ''/w/a'' ''main''])"
    by (simp add: rebaseWorktree_def CombinedOutput_def divergedBackend_def rebaseCall_def)
  have t: "filter (\<lambda>wt. Path wt \<noteq> ''/repo'' \<and> Branch wt \<noteq> [] \<and> Branch wt \<noteq> ''main'')
             [wtMain, wtA] = [wtA]"
    by (simp add: wtMain_def wtA_def)
  have pa: "Path wtA = ''/w/a''" by (simp add: wtA_def)
  have y: "ToLower ''yes'' = ''yes''"
    by (simp add: ToLower_def toLowerChar_def lowerTable_def)
  have sc: "safetyChecks divergedBackend ''main'' [wtA] [] =
      ((planLines ''main'' wtA (Safe (- 1)), [], [wtA]),
       [statusCall ''/w/a'', aheadCall ''/w/a'' ''main'', behindCall ''/w/a'' ''main''])"
    by (simp add: c)
  have fl: "fanoutLoop divergedBackend ''main'' [wtA] 0
              [statusCall ''/w/a'', aheadCall ''/w/a'' ''main'', behindCall ''/w/a'' ''main''] =
            (([InfoRebasingBranch (Branch wtA) ''main'', SuccessLine], Some 1),
             [statusCall ''/w/a'', aheadCall ''/w/a'' ''main'', behindCall ''/w/a'' ''main'',
              rebaseCall ''/w/a'' ''main''])"
    by (simp add: pa r del: safetyChecks.simps)
  have f: "snd (fanoutBranches divergedBackend (repoEnv [wtMain, wtA]) ''yes'') =
       [statusCall ''/w/a'', aheadCall ''/w/a'' ''main'', behindCall ''/w/a'' ''main'',
        rebaseCall ''/w/a'' ''main'']"
    using fanoutBranches_planned [of "repoEnv [wtMain, wtA]" "''/repo''" "''main''"
        "[wtMain, wtA]" "[wtA]" divergedBackend _ _ _ _ "''yes''", OF _ _ _ t _ sc]
    by (simp add: repoEnv_def y fl del: fanoutLoop.simps safetyChecks.simps)
  show ?thesis
    using a bh c f
    by (simp add: divergedBackend_def aheadCall_def behindCall_def)
qed

section \<open>The fanout command\<close>

lemma noMutation_append [simp]: "noMutation (xs @ ys) \<longleftrightarrow> noMutation xs \<and> noMutation ys"
  by (simp add: noMutation_def)

lemma noMutation_iff: "noMutation log \<longleftrightarrow> (\<forall>c\<in>set log. \<not> isMutation (snd c))"
  by (simp add: noMutation_def list_all_iff)

lemma safetyChecks_noMutation: "noMutation (snd (safetyChecks b cur wts []))"
  using safetyChecks_log [of b cur wts "[]"] by (auto simp: noMutation_iff)

lemma verdicts_length: "length (verdicts b cur wts log) = length wts"
  by (induction wts arbitrary: log) simp_all

lemma parseCount_samples:
  "parseCount [] = 0"
  "parseCount (''0'' @ [CHR 0x0A]) = 0"
  "parseCount (''1'' @ [CHR 0x0A]) = 1"
  "parseCount (''2'' @ [CHR 0x0A]) = 2"
  by (simp_all add: parseCount_def TrimSpace_def spaceRunes_def Sscanf_d_def scanInt_def
      scanNumber_def digitVal_def inInt64_def)

lemma wrap64_small: "wrap64 0 = 0" "wrap64 1 = 1" "wrap64 2 = 2" "wrap64 (- 1) = - 1" "wrap64 (- 2) = - 2"
  by (simp_all add: wrap64_def)

lemma readUnsafe_planLines:
  "readUnsafe (planLines cur wt v @ rest) =
     (if isUnsafe v then [(Branch wt, v)] else []) @ readUnsafe rest"
  by (cases v) (simp_all add: planLines_def isUnsafe_def)

lemma readUnsafe_plan:
  "readUnsafe (concat (map (\<lambda>p. planLines cur (fst p) (snd p)) V) @ rest) =
     map (\<lambda>p. (Branch (fst p), snd p)) (filter (\<lambda>p. isUnsafe (snd p)) V) @ readUnsafe rest"
proof (induction V)
  case Nil
  show ?case by simp
next
  case (Cons p V)
  have "readUnsafe (concat (map (\<lambda>p. planLines cur (fst p) (snd p)) (p # V)) @ rest) =
        readUnsafe (planLines cur (fst p) (snd p) @
                    (concat (map (\<lambda>p. planLines cur (fst p) (snd p)) V) @ rest))"
    by simp
  also have "\<dots> = (if isUnsafe (snd p) then [(Branch (fst p), snd p)] else []) @
        readUnsafe (concat (map (\<lambda>p. planLines cur (fst p) (snd p)) V) @ rest)"
    by (rule readUnsafe_planLines)
  finally show ?case by (simp add: Cons.IH)
qed

text \<open>
  Claim C2. When the plan of a fanout gives at least one target worktree an unsafe
  verdict (dirty, inspection failed, or ahead), the command prints the plan and the
  refusal and returns. The calls it has issued are those of the safety checks, none of
  which stages, commits, rebases or aborts. The report enumerates every unsafe worktree
  with its verdict: it holds the line naming a dirty worktree by branch and path, the
  line naming a worktree whose inspection failed with the error, and the lines naming a
  worktree that is ahead with the count; and read back in order, the unsafe entries of
  the report are exactly the unsafe worktrees of the plan, each with its verdict.
\<close>

theorem fanout_refused_when_unsafe:
  assumes "getwd e = Some currentDir" and "managerCurrentBranch e = Inr cur"
    and "worktreeList e = Inr wts"
    and "targets =
           filter (\<lambda>wt. Path wt \<noteq> currentDir \<and> Branch wt \<noteq> [] \<and> Branch wt \<noteq> cur) wts"
    and "\<exists>p\<in>set (verdicts b cur targets []). isUnsafe (snd p)"
  shows "fanoutBranches b e confirm =
           ([TitlePlan, InfoSource cur, InfoTargets (length targets)] @
            concat (map (\<lambda>p. planLines cur (fst p) (snd p)) (verdicts b cur targets [])) @
            [ErrCannotFanout (length (filter (\<lambda>p. isUnsafe (snd p)) (verdicts b cur targets []))),
             InfoPleaseFix],
            snd (safetyChecks b cur targets []))
       \<and> noMutation (snd (fanoutBranches b e confirm))
       \<and> (\<forall>p\<in>set (verdicts b cur targets []).
            isUnsafe (snd p) \<longrightarrow>
            set (planLines cur (fst p) (snd p)) \<subseteq> set (fst (fanoutBranches b e confirm)))
       \<and> (\<forall>p\<in>set (verdicts b cur targets []).
            (snd p = UnsafeDirty \<longrightarrow>
               PlanDirty (Branch (fst p)) (Path (fst p)) \<in> set (fst (fanoutBranches b e confirm))) \<and>
            (\<forall>err. snd p = UnsafeError err \<longrightarrow>
               ErrStatusFailed (Branch (fst p)) err \<in> set (fst (fanoutBranches b e confirm))) \<and>
            (\<forall>diff. snd p = UnsafeAhead diff \<longrightarrow>
               PlanAhead (Branch (fst p)) (Path (fst p)) \<in> set (fst (fanoutBranches b e confirm)) \<and>
               WarnAhead cur diff \<in> set (fst (fanoutBranches b e confirm))))
       \<and> readUnsafe (fst (fanoutBranches b e confirm)) =
           map (\<lambda>p. (Branch (fst p), snd p))
             (filter (\<lambda>p. isUnsafe (snd p)) (verdicts b cur targets []))"
proof -
  let ?V = "verdicts b cur targets []"
  let ?us = "map (\<lambda>p. Branch (fst p)) (filter (\<lambda>p. isUnsafe (snd p)) ?V)"
  have tne: "targets \<noteq> []"
    using assms(5) by (cases targets) auto
  have une: "?us \<noteq> []"
    using assms(5) by (auto simp: filter_empty_conv)
  have flt: "filter (\<lambda>wt. Path wt \<noteq> currentDir \<and> Branch wt \<noteq> [] \<and> Branch wt \<noteq> cur) wts = targets"
    using assms(4) by simp
  have eq: "fanoutBranches b e confirm =
           ([TitlePlan, InfoSource cur, InfoTargets (length targets)] @
            concat (map (\<lambda>p. planLines cur (fst p) (snd p)) ?V) @
            [ErrCannotFanout (length ?us), InfoPleaseFix],
            snd (safetyChecks b cur targets []))"
    using fanoutBranches_planned [OF assms(1) assms(2) assms(3) flt tne
        safetyChecks_eq [of b cur targets "[]"], of confirm] une
    by simp
  have lines: "\<forall>p\<in>set ?V. set (planLines cur (fst p) (snd p)) \<subseteq> set (fst (fanoutBranches b e confirm))"
    by (auto simp: eq)
  have named: "(snd p = UnsafeDirty \<longrightarrow>
               PlanDirty (Branch (fst p)) (Path (fst p)) \<in> set (fst (fanoutBranches b e confirm))) \<and>
            (\<forall>err. snd p = UnsafeError err \<longrightarrow>
               ErrStatusFailed (Branch (fst p)) err \<in> set (fst (fanoutBranches b e confirm))) \<and>
            (\<forall>diff. snd p = UnsafeAhead diff \<longrightarrow>
               PlanAhead (Branch (fst p)) (Path (fst p)) \<in> set (fst (fanoutBranches b e confirm)) \<and>
               WarnAhead cur diff \<in> set (fst (fanoutBranches b e confirm)))"
    if "p \<in> set ?V" for p
  proof -
    from lines that have sub:
      "set (planLines cur (fst p) (snd p)) \<subseteq> set (fst (fanoutBranches b e confirm))"
      by blast
    show ?thesis
      using sub by (cases "snd p") (auto simp: planLines_def)
  qed
  have rd: "readUnsafe (fst (fanoutBranches b e confirm)) =
           map (\<lambda>p. (Branch (fst p), snd p)) (filter (\<lambda>p. isUnsafe (snd p)) ?V)"
    using readUnsafe_plan [of cur ?V "[ErrCannotFanout (length ?us), InfoPleaseFix]"]
    by (simp add: eq)
  show ?thesis
    using eq lines named rd safetyChecks_noMutation [of b cur targets] by simp
qed

text \<open>
  Claim C2 on a plan with every verdict: \<open>a\<close> is dirty, \<open>b\<close> is safe, \<open>c\<close> is ahead
  and the inspection of \<open>e\<close> fails.
\<close>

theorem fanout_refused_when_unsafe_witness:
  "verdicts planBackend ''main'' [wtA, wtB, wtC, wtE] [] =
     [(wtA, UnsafeDirty), (wtB, Safe (- 2)), (wtC, UnsafeAhead 1),
      (wtE, UnsafeError (ExecError ''exit status 128''))]
   \<and> isUnsafe UnsafeDirty \<and> isUnsafe (UnsafeAhead 1)
   \<and> isUnsafe (UnsafeError (ExecError ''exit status 128'')) \<and> \<not> isUnsafe (Safe (- 2))
   \<and> fanoutBranches planBackend (repoEnv [wtMain, wtA, wtB, wtC, wtE]) ''yes'' =
       ([TitlePlan, InfoSource ''main'', InfoTargets 4,
         PlanDirty ''a'' ''/w/a'', WarnUncommitted,
         PlanSafe ''b'' ''/w/b'', NoteBehind 2,
         PlanAhead ''c'' ''/w/c'', WarnAhead ''main'' 1,
         ErrStatusFailed ''e'' (ExecError ''exit status 128''),
         ErrCannotFanout 3, InfoPleaseFix],
        [statusCall ''/w/a'',
         statusCall ''/w/b'', aheadCall ''/w/b'' ''main'', behindCall ''/w/b'' ''main'',
         statusCall ''/w/c'', aheadCall ''/w/c'' ''main'', behindCall ''/w/c'' ''main'',
         statusCall ''/w/e'', aheadCall ''/w/e'' ''main''])
   \<and> noMutation (snd (fanoutBranches planBackend (repoEnv [wtMain, wtA, wtB, wtC, wtE]) ''yes''))
   \<and> readUnsafe (fst (fanoutBranches planBackend (repoEnv [wtMain, wtA, wtB, wtC, wtE]) ''yes'')) =
       [(''a'', UnsafeDirty), (''c'', UnsafeAhead 1),
        (''e'', UnsafeError (ExecError ''exit status 128''))]"
proof -
  let ?l1 = "[statusCall ''/w/a'']"
  let ?l2 = "[statusCall ''/w/a'',
         statusCall ''/w/b'', aheadCall ''/w/b'' ''main'', behindCall ''/w/b'' ''main'']"
  let ?l3 = "[statusCall ''/w/a'',
         statusCall ''/w/b'', aheadCall ''/w/b'' ''main'', behindCall ''/w/b'' ''main'',
         statusCall ''/w/c'', aheadCall ''/w/c'' ''main'', behindCall ''/w/c'' ''main'']"
  let ?l4 = "[statusCall ''/w/a'',
         statusCall ''/w/b'', aheadCall ''/w/b'' ''main'', behindCall ''/w/b'' ''main'',
         statusCall ''/w/c'', aheadCall ''/w/c'' ''main'', behindCall ''/w/c'' ''main'',
         statusCall ''/w/e'', aheadCall ''/w/e'' ''main'']"
  let ?env = "repoEnv [wtMain, wtA, wtB, wtC, wtE]"
  have ts: "TrimSpace [] = []" by (simp add: TrimSpace_def)
  have td: "TrimSpace ('' M file.txt'' @ [CHR 0x0A]) \<noteq> []"
    by (simp add: TrimSpace_def spaceRunes_def)
  have cA: "checkWorktree planBackend ''main'' wtA [] = (UnsafeDirty, ?l1)"
    using td
    by (simp add: checkWorktree_def HasUncommittedChanges_eq planBackend_def wtA_def
        statusCall_def)
  have cB: "checkWorktree planBackend ''main'' wtB ?l1 = (Safe (- 2), ?l2)"
    using parseCount_samples wrap64_small ts
    by (simp add: checkWorktree_def HasUncommittedChanges_eq GetCommitCountDifference_eq
        planBackend_def wtB_def statusCall_def aheadCall_def behindCall_def)
  have cC: "checkWorktree planBackend ''main'' wtC ?l2 = (UnsafeAhead 1, ?l3)"
    using parseCount_samples wrap64_small ts
    by (simp add: checkWorktree_def HasUncommittedChanges_eq GetCommitCountDifference_eq
        planBackend_def wtC_def statusCall_def aheadCall_def behindCall_def)
  have cE: "checkWorktree planBackend ''main'' wtE ?l3 =
      (UnsafeError (ExecError ''exit status 128''), ?l4)"
    using ts
    by (simp add: checkWorktree_def HasUncommittedChanges_eq GetCommitCountDifference_eq
        planBackend_def wtE_def statusCall_def aheadCall_def behindCall_def)
  have v: "verdicts planBackend ''main'' [wtA, wtB, wtC, wtE] [] =
     [(wtA, UnsafeDirty), (wtB, Safe (- 2)), (wtC, UnsafeAhead 1),
      (wtE, UnsafeError (ExecError ''exit status 128''))]"
    by (simp add: cA cB cC cE)
  have sc: "snd (safetyChecks planBackend ''main'' [wtA, wtB, wtC, wtE] []) = ?l4"
    by (simp add: cA cB cC cE)
  have t: "[wtA, wtB, wtC, wtE] =
      filter (\<lambda>wt. Path wt \<noteq> ''/repo'' \<and> Branch wt \<noteq> [] \<and> Branch wt \<noteq> ''main'')
        [wtMain, wtA, wtB, wtC, wtE]"
    by (simp add: wtMain_def wtA_def wtB_def wtC_def wtE_def)
  have u: "isUnsafe UnsafeDirty" "isUnsafe (UnsafeAhead 1)"
    "isUnsafe (UnsafeError (ExecError ''exit status 128''))" "\<not> isUnsafe (Safe (- 2))"
    by (simp_all add: isUnsafe_def)
  have h: "\<exists>p\<in>set (verdicts planBackend ''main'' [wtA, wtB, wtC, wtE] []). isUnsafe (snd p)"
    unfolding v by (simp add: u)
  have e: "getwd ?env = Some ''/repo''" "managerCurrentBranch ?env = Inr ''main''"
    "worktreeList ?env = Inr [wtMain, wtA, wtB, wtC, wtE]"
    by (simp_all add: repoEnv_def)
  note th = fanout_refused_when_unsafe [OF e(1) e(2) e(3) t h, of "''yes''"]
  have pl: "planLines ''main'' wtA UnsafeDirty = [PlanDirty ''a'' ''/w/a'', WarnUncommitted]"
    "planLines ''main'' wtB (Safe (- 2)) = [PlanSafe ''b'' ''/w/b'', NoteBehind 2]"
    "planLines ''main'' wtC (UnsafeAhead 1) = [PlanAhead ''c'' ''/w/c'', WarnAhead ''main'' 1]"
    "planLines ''main'' wtE (UnsafeError (ExecError ''exit status 128'')) =
       [ErrStatusFailed ''e'' (ExecError ''exit status 128'')]"
    using wrap64_small by (simp_all add: planLines_def wtA_def wtB_def wtC_def wtE_def)
  have r: "fanoutBranches planBackend ?env ''yes'' =
       ([TitlePlan, InfoSource ''main'', InfoTargets 4,
         PlanDirty ''a'' ''/w/a'', WarnUncommitted,
         PlanSafe ''b'' ''/w/b'', NoteBehind 2,
         PlanAhead ''c'' ''/w/c'', WarnAhead ''main'' 1,
         ErrStatusFailed ''e'' (ExecError ''exit status 128''),
         ErrCannotFanout 3, InfoPleaseFix], ?l4)"
    using th [THEN conjunct1] by (simp add: v sc pl u del: safetyChecks.simps verdicts.simps)
  have br: "Branch wtA = ''a''" "Branch wtC = ''c''" "Branch wtE = ''e''"
    by (simp_all add: wtA_def wtC_def wtE_def)
  have rd: "readUnsafe (fst (fanoutBranches planBackend ?env ''yes'')) =
       [(''a'', UnsafeDirty), (''c'', UnsafeAhead 1),
        (''e'', UnsafeError (ExecError ''exit status 128''))]"
    using th [THEN conjunct2, THEN conjunct2, THEN conjunct2, THEN conjunct2]
    unfolding v by (simp add: u br)
  show ?thesis
    using v u r th [THEN conjunct2, THEN conjunct1] rd by (intro conjI)
qed

lemma fanoutLoop_prefix_ok:
  assumes "rebasesSucceed b cur pre log"
  shows "fanoutLoop b cur (pre @ rest) n log =
           ((concat (map (\<lambda>w. [InfoRebasingBranch (Branch w) cur, SuccessLine]) pre) @
               fst (fst (fanoutLoop b cur rest (n + length pre)
                           (log @ map (\<lambda>w. rebaseCall (Path w) cur) pre))),
             snd (fst (fanoutLoop b cur rest (n + length pre)
                         (log @ map (\<lambda>w. rebaseCall (Path w) cur) pre)))),
            snd (fanoutLoop b cur rest (n + length pre)
                   (log @ map (\<lambda>w. rebaseCall (Path w) cur) pre)))"
  using assms
proof (induction pre arbitrary: n log)
  case Nil
  show ?case by simp
next
  case (Cons w pre)
  from Cons.prems have ok: "snd (b log (Path w, [''rebase'', cur])) = None"
    and rest: "rebasesSucceed b cur pre (log @ [rebaseCall (Path w) cur])"
    by (simp_all add: rebaseCall_def)
  have rw: "rebaseWorktree b (Path w) cur log = ((True, False, None), log @ [rebaseCall (Path w) cur])"
    using rebaseWorktree_ok [of b log "Path w" cur] ok by (simp add: rebaseCall_def)
  show ?case
    using Cons.IH [OF rest, of "Suc n"]
    by (simp add: rw split_beta)
qed

lemma fanoutLoop_fails_first:
  assumes "b log (rebaseCall (Path wt) cur) = (out, Some e)"
  shows "fanoutLoop b cur (wt # post) n log =
           ((InfoRebasingBranch (Branch wt) cur #
               (if isConflictOutput out
                then [ErrConflictAborted, ErrStoppedConflict (Branch wt), InfoResolveManually]
                else [ErrFailedWith (RebaseFailed e out), ErrStopped (Branch wt)]), None),
            log @ rebaseCall (Path wt) cur #
              (if isConflictOutput out then [abortCall (Path wt)] else []))"
proof -
  have "b log (Path wt, [''rebase'', cur]) = (out, Some e)"
    using assms by (simp add: rebaseCall_def)
  from rebaseWorktree_failed [of b log "Path wt" cur out e, OF this]
  show ?thesis
    by (simp add: rebaseCall_def abortCall_def)
qed

lemma readers_append [simp]:
  "plannedSafe (xs @ ys) = plannedSafe xs @ plannedSafe ys"
  "attempted (xs @ ys) = attempted xs @ attempted ys"
  "succeeded (xs @ ys) = succeeded xs + succeeded ys"
  "stoppedAt (xs @ ys) = stoppedAt xs @ stoppedAt ys"
  by (simp_all add: plannedSafe_def attempted_def succeeded_def stoppedAt_def)

lemma readers_planLines:
  "plannedSafe (planLines cur wt v) = (if isUnsafe v then [] else [(Branch wt, Path wt)])"
  "attempted (planLines cur wt v) = []"
  "succeeded (planLines cur wt v) = 0"
  "stoppedAt (planLines cur wt v) = []"
  by (cases v; simp add: planLines_def isUnsafe_def plannedSafe_def attempted_def succeeded_def
      stoppedAt_def)+

lemma readers_plan:
  "plannedSafe (concat (map (\<lambda>p. planLines cur (fst p) (snd p)) V)) =
     map (\<lambda>w. (Branch w, Path w)) (map fst (filter (\<lambda>p. \<not> isUnsafe (snd p)) V))"
  "attempted (concat (map (\<lambda>p. planLines cur (fst p) (snd p)) V)) = []"
  "succeeded (concat (map (\<lambda>p. planLines cur (fst p) (snd p)) V)) = 0"
  "stoppedAt (concat (map (\<lambda>p. planLines cur (fst p) (snd p)) V)) = []"
  by (induction V) (simp_all add: readers_planLines, simp_all add: plannedSafe_def attempted_def
      succeeded_def stoppedAt_def)

lemma readers_progress:
  "plannedSafe (concat (map (\<lambda>w. [InfoRebasingBranch (Branch w) cur, SuccessLine]) pre)) = []"
  "attempted (concat (map (\<lambda>w. [InfoRebasingBranch (Branch w) cur, SuccessLine]) pre)) =
     map Branch pre"
  "succeeded (concat (map (\<lambda>w. [InfoRebasingBranch (Branch w) cur, SuccessLine]) pre)) =
     length pre"
  "stoppedAt (concat (map (\<lambda>w. [InfoRebasingBranch (Branch w) cur, SuccessLine]) pre)) = []"
  by (induction pre) (simp_all add: plannedSafe_def attempted_def succeeded_def stoppedAt_def)

lemma readers_Nil [simp]:
  "plannedSafe [] = []" "attempted [] = []" "succeeded [] = 0" "stoppedAt [] = []"
  by (simp_all add: plannedSafe_def attempted_def succeeded_def stoppedAt_def)

lemma readers_Cons [simp]:
  "plannedSafe (m # xs) = (case m of PlanSafe br p \<Rightarrow> [(br, p)] | _ \<Rightarrow> []) @ plannedSafe xs"
  "attempted (m # xs) = (case m of InfoRebasingBranch br c \<Rightarrow> [br] | _ \<Rightarrow> []) @ attempted xs"
  "succeeded (m # xs) = (if m = SuccessLine then 1 else 0) + succeeded xs"
  "stoppedAt (m # xs) =
     (case m of ErrStoppedConflict br \<Rightarrow> [br] | ErrStopped br \<Rightarrow> [br] | _ \<Rightarrow> []) @ stoppedAt xs"
  by (simp_all add: plannedSafe_def attempted_def succeeded_def stoppedAt_def)

lemma readers_failure:
  "plannedSafe (failureLines wt cur e out) = []"
  "attempted (failureLines wt cur e out) = [Branch wt]"
  "succeeded (failureLines wt cur e out) = 0"
  "stoppedAt (failureLines wt cur e out) = [Branch wt]"
  by (simp_all add: failureLines_def plannedSafe_def attempted_def succeeded_def stoppedAt_def)

lemma fanoutLoop_stops:
  assumes "rebasesSucceed b cur pre log"
    and "b (log @ map (\<lambda>w. rebaseCall (Path w) cur) pre) (rebaseCall (Path wt) cur) = (out, Some e)"
  shows "fanoutLoop b cur (pre @ wt # post) n log =
           ((concat (map (\<lambda>w. [InfoRebasingBranch (Branch w) cur, SuccessLine]) pre) @
               failureLines wt cur e out, None),
            log @ map (\<lambda>w. rebaseCall (Path w) cur) pre @
              rebaseCall (Path wt) cur #
              (if isConflictOutput out then [abortCall (Path wt)] else []))"
  using fanoutLoop_prefix_ok [OF assms(1), of "wt # post" n]
    fanoutLoop_fails_first [of b "log @ map (\<lambda>w. rebaseCall (Path w) cur) pre" wt cur out e post
      "n + length pre", OF assms(2)]
  by (simp add: failureLines_def del: fanoutLoop.simps)

lemma fanoutBranches_stopped:
  assumes "rebasesSucceed b cur pre log"
    and "b (log @ map (\<lambda>w. rebaseCall (Path w) cur) pre) (rebaseCall (Path wt) cur) = (out, Some e)"
    and "getwd env = Some currentDir" and "managerCurrentBranch env = Inr cur"
    and "worktreeList env = Inr wts"
    and "safetyChecks b cur
           (filter (\<lambda>w. Path w \<noteq> currentDir \<and> Branch w \<noteq> [] \<and> Branch w \<noteq> cur) wts) [] =
         ((planOut, [], pre @ wt # post), log)"
    and "ToLower confirm = ''yes''"
  shows "fanoutBranches b env confirm =
           ([TitlePlan, InfoSource cur,
             InfoTargets (length (filter (\<lambda>w. Path w \<noteq> currentDir \<and> Branch w \<noteq> [] \<and>
                                               Branch w \<noteq> cur) wts))] @
            planOut @
            [TitleReady, WarnWillRebase (length (pre @ wt # post)) cur, InfoWillPreserve,
             PromptContinue, TitleProgress] @
            concat (map (\<lambda>w. [InfoRebasingBranch (Branch w) cur, SuccessLine]) pre) @
            failureLines wt cur e out,
            log @ map (\<lambda>w. rebaseCall (Path w) cur) pre @
              rebaseCall (Path wt) cur #
              (if isConflictOutput out then [abortCall (Path wt)] else []))"
    and "plannedSafe planOut = map (\<lambda>w. (Branch w, Path w)) (pre @ wt # post)"
    and "attempted planOut = []" and "succeeded planOut = 0" and "stoppedAt planOut = []"
proof -
  let ?targets = "filter (\<lambda>w. Path w \<noteq> currentDir \<and> Branch w \<noteq> [] \<and> Branch w \<noteq> cur) wts"
  have tne: "?targets \<noteq> []"
  proof
    assume "?targets = []"
    with assms(6) show False by simp
  qed
  from fanoutBranches_planned [OF assms(3) assms(4) assms(5) refl tne assms(6), of confirm]
  show "fanoutBranches b env confirm =
           ([TitlePlan, InfoSource cur, InfoTargets (length ?targets)] @
            planOut @
            [TitleReady, WarnWillRebase (length (pre @ wt # post)) cur, InfoWillPreserve,
             PromptContinue, TitleProgress] @
            concat (map (\<lambda>w. [InfoRebasingBranch (Branch w) cur, SuccessLine]) pre) @
            failureLines wt cur e out,
            log @ map (\<lambda>w. rebaseCall (Path w) cur) pre @
              rebaseCall (Path wt) cur #
              (if isConflictOutput out then [abortCall (Path wt)] else []))"
    by (simp add: assms(7) fanoutLoop_stops [OF assms(1) assms(2)] del: fanoutLoop.simps)
  from safetyChecks_eq [of b cur ?targets "[]"] assms(6)
  have po: "planOut = concat (map (\<lambda>p. planLines cur (fst p) (snd p)) (verdicts b cur ?targets []))"
    and sf: "pre @ wt # post =
      map fst (filter (\<lambda>p. \<not> isUnsafe (snd p)) (verdicts b cur ?targets []))"
    by simp_all
  show "plannedSafe planOut = map (\<lambda>w. (Branch w, Path w)) (pre @ wt # post)"
    unfolding po sf by (rule readers_plan)
  show "attempted planOut = []" unfolding po by (rule readers_plan)
  show "succeeded planOut = 0" unfolding po by (rule readers_plan)
  show "stoppedAt planOut = []" unfolding po by (rule readers_plan)
qed

text \<open>
  Claim C3. When the rebases of the worktrees before the k-th succeed and the rebase of
  the k-th fails, the loop ends there whatever follows in the list. The calls are one
  rebase for each of the k-1 worktrees before it (nothing undoes them), the rebase of the
  k-th, and its abort when the failure is a conflict; no call is made for a later
  worktree. The loop prints a progress line and a success line for each of the first
  k-1, and a progress line and the failure for the k-th. The report of the command, which
  begins with the plan of all N safe worktrees, tells the three groups apart: of the
  worktrees its plan lists, the first as many as it shows successes are the k-1
  completed ones, the branch it says the fanout stopped at is that of the k-th, and those
  after the last it shows an attempt for are the N-k that were not attempted.
\<close>

theorem fanout_stops_at_first_failure:
  assumes "rebasesSucceed b cur pre log"
    and "b (log @ map (\<lambda>w. rebaseCall (Path w) cur) pre) (rebaseCall (Path wt) cur) = (out, Some e)"
  shows "fanoutLoop b cur (pre @ wt # post) n log =
           ((concat (map (\<lambda>w. [InfoRebasingBranch (Branch w) cur, SuccessLine]) pre) @
               InfoRebasingBranch (Branch wt) cur #
               (if isConflictOutput out
                then [ErrConflictAborted, ErrStoppedConflict (Branch wt), InfoResolveManually]
                else [ErrFailedWith (RebaseFailed e out), ErrStopped (Branch wt)]), None),
            log @ map (\<lambda>w. rebaseCall (Path w) cur) pre @
              rebaseCall (Path wt) cur #
              (if isConflictOutput out then [abortCall (Path wt)] else []))
       \<and> length (filter (\<lambda>m. m = SuccessLine) (fst (fst (fanoutLoop b cur (pre @ wt # post) n log))))
           = length pre
       \<and> length (filter (\<lambda>m. \<exists>br. m = InfoRebasingBranch br cur)
                   (fst (fst (fanoutLoop b cur (pre @ wt # post) n log))))
           = length pre + 1
       \<and> (\<forall>env currentDir wts confirm planOut.
            getwd env = Some currentDir \<and> managerCurrentBranch env = Inr cur \<and>
            worktreeList env = Inr wts \<and>
            safetyChecks b cur
              (filter (\<lambda>w. Path w \<noteq> currentDir \<and> Branch w \<noteq> [] \<and> Branch w \<noteq> cur) wts) [] =
              ((planOut, [], pre @ wt # post), log) \<and>
            ToLower confirm = ''yes''
            \<longrightarrow> fanoutBranches b env confirm =
                  ([TitlePlan, InfoSource cur,
                    InfoTargets (length (filter (\<lambda>w. Path w \<noteq> currentDir \<and> Branch w \<noteq> [] \<and>
                                                      Branch w \<noteq> cur) wts))] @
                   planOut @
                   [TitleReady, WarnWillRebase (length (pre @ wt # post)) cur, InfoWillPreserve,
                    PromptContinue, TitleProgress] @
                   concat (map (\<lambda>w. [InfoRebasingBranch (Branch w) cur, SuccessLine]) pre) @
                   InfoRebasingBranch (Branch wt) cur #
                   (if isConflictOutput out
                    then [ErrConflictAborted, ErrStoppedConflict (Branch wt), InfoResolveManually]
                    else [ErrFailedWith (RebaseFailed e out), ErrStopped (Branch wt)]),
                   log @ map (\<lambda>w. rebaseCall (Path w) cur) pre @
                     rebaseCall (Path wt) cur #
                     (if isConflictOutput out then [abortCall (Path wt)] else []))
              \<and> plannedSafe (fst (fanoutBranches b env confirm)) =
                  map (\<lambda>w. (Branch w, Path w)) (pre @ wt # post)
              \<and> succeeded (fst (fanoutBranches b env confirm)) = length pre
              \<and> take (succeeded (fst (fanoutBranches b env confirm)))
                    (plannedSafe (fst (fanoutBranches b env confirm))) =
                  map (\<lambda>w. (Branch w, Path w)) pre
              \<and> stoppedAt (fst (fanoutBranches b env confirm)) = [Branch wt]
              \<and> length (attempted (fst (fanoutBranches b env confirm))) = length pre + 1
              \<and> drop (length (attempted (fst (fanoutBranches b env confirm))))
                    (plannedSafe (fst (fanoutBranches b env confirm))) =
                  map (\<lambda>w. (Branch w, Path w)) post)"
proof -
  have eq: "fanoutLoop b cur (pre @ wt # post) n log =
           ((concat (map (\<lambda>w. [InfoRebasingBranch (Branch w) cur, SuccessLine]) pre) @
               InfoRebasingBranch (Branch wt) cur #
               (if isConflictOutput out
                then [ErrConflictAborted, ErrStoppedConflict (Branch wt), InfoResolveManually]
                else [ErrFailedWith (RebaseFailed e out), ErrStopped (Branch wt)]), None),
            log @ map (\<lambda>w. rebaseCall (Path w) cur) pre @
              rebaseCall (Path wt) cur #
              (if isConflictOutput out then [abortCall (Path wt)] else []))"
    using fanoutLoop_stops [OF assms, of post n] by (simp add: failureLines_def)
  have s: "length (filter (\<lambda>m. m = SuccessLine)
             (concat (map (\<lambda>w. [InfoRebasingBranch (Branch w) cur, SuccessLine]) pre))) = length pre"
    by (induction pre) simp_all
  have r: "length (filter (\<lambda>m. \<exists>br. m = InfoRebasingBranch br cur)
             (concat (map (\<lambda>w. [InfoRebasingBranch (Branch w) cur, SuccessLine]) pre))) = length pre"
    by (induction pre) simp_all
  have loop: "length (filter (\<lambda>m. m = SuccessLine) (fst (fst (fanoutLoop b cur (pre @ wt # post) n log))))
           = length pre
       \<and> length (filter (\<lambda>m. \<exists>br. m = InfoRebasingBranch br cur)
                   (fst (fst (fanoutLoop b cur (pre @ wt # post) n log))))
           = length pre + 1"
    using s r by (simp add: eq del: fanoutLoop.simps)
  have cmd: "fanoutBranches b env confirm =
                  ([TitlePlan, InfoSource cur,
                    InfoTargets (length (filter (\<lambda>w. Path w \<noteq> currentDir \<and> Branch w \<noteq> [] \<and>
                                                      Branch w \<noteq> cur) wts))] @
                   planOut @
                   [TitleReady, WarnWillRebase (length (pre @ wt # post)) cur, InfoWillPreserve,
                    PromptContinue, TitleProgress] @
                   concat (map (\<lambda>w. [InfoRebasingBranch (Branch w) cur, SuccessLine]) pre) @
                   InfoRebasingBranch (Branch wt) cur #
                   (if isConflictOutput out
                    then [ErrConflictAborted, ErrStoppedConflict (Branch wt), InfoResolveManually]
                    else [ErrFailedWith (RebaseFailed e out), ErrStopped (Branch wt)]),
                   log @ map (\<lambda>w. rebaseCall (Path w) cur) pre @
                     rebaseCall (Path wt) cur #
                     (if isConflictOutput out then [abortCall (Path wt)] else []))
              \<and> plannedSafe (fst (fanoutBranches b env confirm)) =
                  map (\<lambda>w. (Branch w, Path w)) (pre @ wt # post)
              \<and> succeeded (fst (fanoutBranches b env confirm)) = length pre
              \<and> take (succeeded (fst (fanoutBranches b env confirm)))
                    (plannedSafe (fst (fanoutBranches b env confirm))) =
                  map (\<lambda>w. (Branch w, Path w)) pre
              \<and> stoppedAt (fst (fanoutBranches b env confirm)) = [Branch wt]
              \<and> length (attempted (fst (fanoutBranches b env confirm))) = length pre + 1
              \<and> drop (length (attempted (fst (fanoutBranches b env confirm))))
                    (plannedSafe (fst (fanoutBranches b env confirm))) =
                  map (\<lambda>w. (Branch w, Path w)) post"
    if h: "getwd env = Some currentDir" "managerCurrentBranch env = Inr cur"
      "worktreeList env = Inr wts"
      "safetyChecks b cur
              (filter (\<lambda>w. Path w \<noteq> currentDir \<and> Branch w \<noteq> [] \<and> Branch w \<noteq> cur) wts) [] =
              ((planOut, [], pre @ wt # post), log)"
      "ToLower confirm = ''yes''"
    for env currentDir wts confirm planOut
  proof -
    note st = fanoutBranches_stopped [OF assms h]
    have ps: "plannedSafe (fst (fanoutBranches b env confirm)) =
                  map (\<lambda>w. (Branch w, Path w)) (pre @ wt # post)"
      by (simp add: st readers_progress readers_failure del: map_append)
    have su: "succeeded (fst (fanoutBranches b env confirm)) = length pre"
      by (simp add: st readers_progress readers_failure)
    have at: "attempted (fst (fanoutBranches b env confirm)) = map Branch pre @ [Branch wt]"
      by (simp add: st readers_progress readers_failure)
    have sp: "stoppedAt (fst (fanoutBranches b env confirm)) = [Branch wt]"
      by (simp add: st readers_progress readers_failure)
    show ?thesis
      unfolding ps su at sp using st(1) by (simp add: failureLines_def)
  qed
  show ?thesis using eq loop cmd by blast
qed

text \<open>
  Claim C3 on three safe worktrees where the rebase of the second stops on a conflict.
\<close>

theorem fanout_stops_at_first_failure_witness:
  "rebasesSucceed rebaseConflictBackend ''main'' [wtA]
     [statusCall ''/w/a'', aheadCall ''/w/a'' ''main'', behindCall ''/w/a'' ''main'',
      statusCall ''/w/b'', aheadCall ''/w/b'' ''main'', behindCall ''/w/b'' ''main'',
      statusCall ''/w/c'', aheadCall ''/w/c'' ''main'', behindCall ''/w/c'' ''main'']
   \<and> rebaseConflictBackend
        ([statusCall ''/w/a'', aheadCall ''/w/a'' ''main'', behindCall ''/w/a'' ''main'',
          statusCall ''/w/b'', aheadCall ''/w/b'' ''main'', behindCall ''/w/b'' ''main'',
          statusCall ''/w/c'', aheadCall ''/w/c'' ''main'', behindCall ''/w/c'' ''main''] @
         map (\<lambda>w. rebaseCall (Path w) ''main'') [wtA])
        (rebaseCall (Path wtB) ''main'') =
       (''CONFLICT (content): Merge conflict in file.txt'', Some (ExecError ''exit status 1''))
   \<and> fanoutBranches rebaseConflictBackend (repoEnv [wtMain, wtA, wtB, wtC]) ''yes'' =
       ([TitlePlan, InfoSource ''main'', InfoTargets 3,
         PlanSafe ''a'' ''/w/a'', NoteUpToDate,
         PlanSafe ''b'' ''/w/b'', NoteUpToDate,
         PlanSafe ''c'' ''/w/c'', NoteUpToDate,
         TitleReady, WarnWillRebase 3 ''main'', InfoWillPreserve, PromptContinue, TitleProgress,
         InfoRebasingBranch ''a'' ''main'', SuccessLine,
         InfoRebasingBranch ''b'' ''main'', ErrConflictAborted, ErrStoppedConflict ''b'',
         InfoResolveManually],
        [statusCall ''/w/a'', aheadCall ''/w/a'' ''main'', behindCall ''/w/a'' ''main'',
         statusCall ''/w/b'', aheadCall ''/w/b'' ''main'', behindCall ''/w/b'' ''main'',
         statusCall ''/w/c'', aheadCall ''/w/c'' ''main'', behindCall ''/w/c'' ''main'',
         rebaseCall ''/w/a'' ''main'', rebaseCall ''/w/b'' ''main'', abortCall ''/w/b''])
   \<and> plannedSafe (fst (fanoutBranches rebaseConflictBackend (repoEnv [wtMain, wtA, wtB, wtC]) ''yes''))
       = [(''a'', ''/w/a''), (''b'', ''/w/b''), (''c'', ''/w/c'')]
   \<and> succeeded (fst (fanoutBranches rebaseConflictBackend (repoEnv [wtMain, wtA, wtB, wtC]) ''yes''))
       = 1
   \<and> stoppedAt (fst (fanoutBranches rebaseConflictBackend (repoEnv [wtMain, wtA, wtB, wtC]) ''yes''))
       = [''b'']
   \<and> drop (length (attempted
              (fst (fanoutBranches rebaseConflictBackend (repoEnv [wtMain, wtA, wtB, wtC]) ''yes''))))
        (plannedSafe
              (fst (fanoutBranches rebaseConflictBackend (repoEnv [wtMain, wtA, wtB, wtC]) ''yes'')))
       = [(''c'', ''/w/c'')]"
proof -
  let ?b = rebaseConflictBackend
  let ?env = "repoEnv [wtMain, wtA, wtB, wtC]"
  let ?la = "[statusCall ''/w/a'', aheadCall ''/w/a'' ''main'', behindCall ''/w/a'' ''main'']"
  let ?lb = "[statusCall ''/w/a'', aheadCall ''/w/a'' ''main'', behindCall ''/w/a'' ''main'',
      statusCall ''/w/b'', aheadCall ''/w/b'' ''main'', behindCall ''/w/b'' ''main'']"
  let ?L = "[statusCall ''/w/a'', aheadCall ''/w/a'' ''main'', behindCall ''/w/a'' ''main'',
      statusCall ''/w/b'', aheadCall ''/w/b'' ''main'', behindCall ''/w/b'' ''main'',
      statusCall ''/w/c'', aheadCall ''/w/c'' ''main'', behindCall ''/w/c'' ''main'']"
  let ?po = "[PlanSafe ''a'' ''/w/a'', NoteUpToDate,
         PlanSafe ''b'' ''/w/b'', NoteUpToDate,
         PlanSafe ''c'' ''/w/c'', NoteUpToDate]"
  have ts: "TrimSpace [] = []" by (simp add: TrimSpace_def)
  have cA: "checkWorktree ?b ''main'' wtA [] = (Safe 0, ?la)"
    using parseCount_samples(1) wrap64_small(1) ts
    by (simp add: checkWorktree_def HasUncommittedChanges_eq GetCommitCountDifference_eq
        rebaseConflictBackend_def wtA_def statusCall_def aheadCall_def behindCall_def)
  have cB: "checkWorktree ?b ''main'' wtB ?la = (Safe 0, ?lb)"
    using parseCount_samples(1) wrap64_small(1) ts
    by (simp add: checkWorktree_def HasUncommittedChanges_eq GetCommitCountDifference_eq
        rebaseConflictBackend_def wtB_def statusCall_def aheadCall_def behindCall_def)
  have cC: "checkWorktree ?b ''main'' wtC ?lb = (Safe 0, ?L)"
    using parseCount_samples(1) wrap64_small(1) ts
    by (simp add: checkWorktree_def HasUncommittedChanges_eq GetCommitCountDifference_eq
        rebaseConflictBackend_def wtC_def statusCall_def aheadCall_def behindCall_def)
  have pl: "planLines ''main'' wtA (Safe 0) = [PlanSafe ''a'' ''/w/a'', NoteUpToDate]"
    "planLines ''main'' wtB (Safe 0) = [PlanSafe ''b'' ''/w/b'', NoteUpToDate]"
    "planLines ''main'' wtC (Safe 0) = [PlanSafe ''c'' ''/w/c'', NoteUpToDate]"
    by (simp_all add: planLines_def wtA_def wtB_def wtC_def)
  have t: "filter (\<lambda>w. Path w \<noteq> ''/repo'' \<and> Branch w \<noteq> [] \<and> Branch w \<noteq> ''main'')
        [wtMain, wtA, wtB, wtC] = [wtA, wtB, wtC]"
    by (simp add: wtMain_def wtA_def wtB_def wtC_def)
  have sc: "safetyChecks ?b ''main''
        (filter (\<lambda>w. Path w \<noteq> ''/repo'' \<and> Branch w \<noteq> [] \<and> Branch w \<noteq> ''main'')
           [wtMain, wtA, wtB, wtC]) [] = ((?po, [], [wtA] @ wtB # [wtC]), ?L)"
    unfolding t by (simp add: cA cB cC pl)
  have ok: "rebasesSucceed ?b ''main'' [wtA] ?L"
    by (simp add: rebaseConflictBackend_def rebaseCall_def wtA_def)
  have fl: "?b (?L @ map (\<lambda>w. rebaseCall (Path w) ''main'') [wtA]) (rebaseCall (Path wtB) ''main'') =
       (''CONFLICT (content): Merge conflict in file.txt'', Some (ExecError ''exit status 1''))"
    by (simp add: rebaseConflictBackend_def rebaseCall_def wtB_def)
  have y: "isConflictOutput ''CONFLICT (content): Merge conflict in file.txt''"
    by (simp add: isConflictOutput_def)
  have yes: "ToLower ''yes'' = ''yes''"
    by (simp add: ToLower_def toLowerChar_def lowerTable_def)
  have e: "getwd ?env = Some ''/repo''" "managerCurrentBranch ?env = Inr ''main''"
    "worktreeList ?env = Inr [wtMain, wtA, wtB, wtC]"
    by (simp_all add: repoEnv_def)
  have h: "getwd ?env = Some ''/repo'' \<and> managerCurrentBranch ?env = Inr ''main'' \<and>
      worktreeList ?env = Inr [wtMain, wtA, wtB, wtC] \<and>
      safetyChecks ?b ''main''
        (filter (\<lambda>w. Path w \<noteq> ''/repo'' \<and> Branch w \<noteq> [] \<and> Branch w \<noteq> ''main'')
           [wtMain, wtA, wtB, wtC]) [] = ((?po, [], [wtA] @ wtB # [wtC]), ?L) \<and>
      ToLower ''yes'' = ''yes''"
    using e sc yes by (intro conjI)
  note th = fanout_stops_at_first_failure [OF ok fl, of "[wtC]" 0, THEN conjunct2, THEN conjunct2,
      THEN conjunct2, rule_format, OF h]
  have br: "Branch wtA = ''a''" "Branch wtB = ''b''" "Branch wtC = ''c''"
    "Path wtA = ''/w/a''" "Path wtB = ''/w/b''" "Path wtC = ''/w/c''"
    by (simp_all add: wtA_def wtB_def wtC_def)
  have r: "fanoutBranches ?b ?env ''yes'' =
       ([TitlePlan, InfoSource ''main'', InfoTargets 3,
         PlanSafe ''a'' ''/w/a'', NoteUpToDate,
         PlanSafe ''b'' ''/w/b'', NoteUpToDate,
         PlanSafe ''c'' ''/w/c'', NoteUpToDate,
         TitleReady, WarnWillRebase 3 ''main'', InfoWillPreserve, PromptContinue, TitleProgress,
         InfoRebasingBranch ''a'' ''main'', SuccessLine,
         InfoRebasingBranch ''b'' ''main'', ErrConflictAborted, ErrStoppedConflict ''b'',
         InfoResolveManually],
        [statusCall ''/w/a'', aheadCall ''/w/a'' ''main'', behindCall ''/w/a'' ''main'',
         statusCall ''/w/b'', aheadCall ''/w/b'' ''main'', behindCall ''/w/b'' ''main'',
         statusCall ''/w/c'', aheadCall ''/w/c'' ''main'', behindCall ''/w/c'' ''main'',
         rebaseCall ''/w/a'' ''main'', rebaseCall ''/w/b'' ''main'', abortCall ''/w/b''])"
    using th [THEN conjunct1] unfolding t by (simp add: y br)
  have p: "plannedSafe (fst (fanoutBranches ?b ?env ''yes'')) =
      [(''a'', ''/w/a''), (''b'', ''/w/b''), (''c'', ''/w/c'')]"
    using th [THEN conjunct2, THEN conjunct1] by (simp add: br)
  have s: "succeeded (fst (fanoutBranches ?b ?env ''yes'')) = 1"
    using th [THEN conjunct2, THEN conjunct2, THEN conjunct1] by simp
  have st: "stoppedAt (fst (fanoutBranches ?b ?env ''yes'')) = [''b'']"
    using th [THEN conjunct2, THEN conjunct2, THEN conjunct2, THEN conjunct2, THEN conjunct1]
    by (simp add: br)
  have d: "drop (length (attempted (fst (fanoutBranches ?b ?env ''yes''))))
        (plannedSafe (fst (fanoutBranches ?b ?env ''yes''))) = [(''c'', ''/w/c'')]"
    using th [THEN conjunct2, THEN conjunct2, THEN conjunct2, THEN conjunct2, THEN conjunct2,
        THEN conjunct2]
    by (simp add: br)
  show ?thesis using ok fl r p s st d by (intro conjI)
qed

section \<open>The rebase command\<close>

lemma findByPath_eq:
  "findByPath target wts = List.find (\<lambda>wt. Path wt = target \<or> suffix target (Path wt)) wts"
  by (induction wts) (simp_all add: HasSuffix_iff)

lemma findByBranch_eq:
  "findByBranch target wts = List.find (\<lambda>wt. Branch wt = target) wts"
  by (induction wts) simp_all

lemma pathLike_iff:
  "IsAbs target \<or> HasPrefix target ''.'' \<or> HasPrefix target ''~'' \<longleftrightarrow> pathLike target"
  by (cases target) (auto simp: IsAbs_def pathLike_def)

lemma GetCurrentBranch_log: "snd (GetCurrentBranch b dir log) = log @ [branchCall dir]"
  by (simp add: GetCurrentBranch_def CombinedOutput_def branchCall_def split: option.split)

lemma isMutation_branchCall [simp]: "\<not> isMutation (snd (branchCall dir))"
  by (simp add: isMutation_def branchCall_def)

lemma statusIcon_log:
  "\<exists>ext. snd (statusIcon b cur wt log) = log @ ext \<and>
         (\<forall>c\<in>set ext. fst c = Path wt \<and> \<not> isMutation (snd c))"
proof (cases "fst (HasUncommittedChanges b (Path wt) log)")
  case True
  then have "snd (statusIcon b cur wt log) = log @ [statusCall (Path wt)]"
    by (simp add: statusIcon_def HasUncommittedChanges_eq)
  then show ?thesis by simp
next
  case False
  obtain ext where ext:
    "snd (GetCommitCountDifference b (Path wt) cur (log @ [statusCall (Path wt)])) =
       (log @ [statusCall (Path wt)]) @ ext"
    "\<forall>c\<in>set ext. fst c = Path wt \<and> \<not> isMutation (snd c)"
    using GetCommitCountDifference_log by blast
  obtain r log2 where g:
    "GetCommitCountDifference b (Path wt) cur (log @ [statusCall (Path wt)]) = (r, log2)"
    by (cases "GetCommitCountDifference b (Path wt) cur (log @ [statusCall (Path wt)])")
  from False have d: "HasUncommittedChanges b (Path wt) log = (False, log @ [statusCall (Path wt)])"
    by (simp add: HasUncommittedChanges_eq)
  have "snd (statusIcon b cur wt log) =
      snd (GetCommitCountDifference b (Path wt) cur (log @ [statusCall (Path wt)]))"
    by (cases r) (simp_all add: statusIcon_def d g)
  with ext have "snd (statusIcon b cur wt log) = log @ (statusCall (Path wt) # ext)"
    by simp
  moreover have "\<forall>c\<in>set (statusCall (Path wt) # ext). fst c = Path wt \<and> \<not> isMutation (snd c)"
    using ext(2) by simp
  ultimately show ?thesis by blast
qed

lemma listChoices_log:
  "\<exists>ext. snd (listChoices b cur i wts log) = log @ ext \<and>
         (\<forall>c\<in>set ext. fst c \<in> Path ` set wts \<and> \<not> isMutation (snd c))"
proof (induction wts arbitrary: i log)
  case Nil
  show ?case by simp
next
  case (Cons wt rest)
  obtain ic log1 where si: "statusIcon b cur wt log = (ic, log1)" by (cases "statusIcon b cur wt log")
  obtain ext1 where e1: "log1 = log @ ext1" "\<forall>c\<in>set ext1. fst c = Path wt \<and> \<not> isMutation (snd c)"
    using statusIcon_log [of b cur wt log] si by auto
  obtain ext2 where e2: "snd (listChoices b cur (i + 1) rest log1) = log1 @ ext2"
    "\<forall>c\<in>set ext2. fst c \<in> Path ` set rest \<and> \<not> isMutation (snd c)"
    using Cons.IH [of "i + 1" log1] by blast
  have "snd (listChoices b cur i (wt # rest) log) = snd (listChoices b cur (i + 1) rest log1)"
    by (simp add: si split_beta)
  then have "snd (listChoices b cur i (wt # rest) log) = log @ (ext1 @ ext2)"
    using e1(1) e2(1) by simp
  moreover have "\<forall>c\<in>set (ext1 @ ext2). fst c \<in> Path ` set (wt # rest) \<and> \<not> isMutation (snd c)"
    using e1(2) e2(2) by auto
  ultimately show ?case by blast
qed

lemma selectWorktreeForRebase_log:
  "\<exists>ext. snd (selectWorktreeForRebase b wts currentDir input log) = log @ ext \<and>
         (\<forall>c\<in>set ext. \<not> isMutation (snd c) \<and>
            (c = branchCall currentDir \<or>
             fst c \<in> Path ` set (filter (\<lambda>wt. Path wt \<noteq> currentDir \<and> Branch wt \<noteq> []) wts)))"
proof -
  let ?av = "filter (\<lambda>wt. Path wt \<noteq> currentDir \<and> Branch wt \<noteq> []) wts"
  show ?thesis
  proof (cases "?av = []")
    case True
    then have "snd (selectWorktreeForRebase b wts currentDir input log) = log"
      by (simp add: selectWorktreeForRebase_def)
    then show ?thesis by simp
  next
    case False
    let ?cb = "case fst (GetCurrentBranch b currentDir log) of Inl err \<Rightarrow> [] | Inr s \<Rightarrow> s"
    let ?log1 = "log @ [branchCall currentDir]"
    obtain ext where ext: "snd (listChoices b ?cb 0 ?av ?log1) = ?log1 @ ext"
      "\<forall>c\<in>set ext. fst c \<in> Path ` set ?av \<and> \<not> isMutation (snd c)"
      using listChoices_log by blast
    have "snd (selectWorktreeForRebase b wts currentDir input log) =
            snd (listChoices b ?cb 0 ?av ?log1)"
      using False GetCurrentBranch_log [of b currentDir log]
      by (simp add: selectWorktreeForRebase_def split_beta Let_def split: option.split)
    then have "snd (selectWorktreeForRebase b wts currentDir input log) =
            log @ (branchCall currentDir # ext)"
      using ext(1) by simp
    moreover have "\<forall>c\<in>set (branchCall currentDir # ext). \<not> isMutation (snd c) \<and>
            (c = branchCall currentDir \<or> fst c \<in> Path ` set ?av)"
      using ext(2) by simp
    ultimately show ?thesis by blast
  qed
qed

lemma selectWorktreeForRebase_selected:
  assumes "fst (selectWorktreeForRebase b wts currentDir input log) = (out, Some wt)"
  shows "wt \<in> set wts \<and> Path wt \<noteq> currentDir \<and> Branch wt \<noteq> []"
proof -
  let ?av = "filter (\<lambda>wt. Path wt \<noteq> currentDir \<and> Branch wt \<noteq> []) wts"
  from assms have "\<exists>choice. 1 \<le> choice \<and> choice \<le> int (length ?av) \<and>
      wt = ?av ! nat (choice - 1)"
    by (fastforce simp: selectWorktreeForRebase_def split_beta Let_def not_less
        split: if_splits option.splits)
  then obtain choice where c: "1 \<le> choice" "choice \<le> int (length ?av)"
    "wt = ?av ! nat (choice - 1)"
    by blast
  then have "nat (choice - 1) < length ?av" by linarith
  then have "wt \<in> set ?av" using c(3) nth_mem by blast
  then show ?thesis by simp
qed

lemma determineTarget_args:
  "determineTarget b wts currentDir (target # rest) selection log =
     (case (if pathLike target
            then List.find (\<lambda>wt. Path wt = target \<or> suffix target (Path wt)) wts
            else List.find (\<lambda>wt. Branch wt = target) wts) of
        None \<Rightarrow>
          ((ErrWorktreeNotFound target # InfoAvailableWorktrees # map LineWorktree wts, None), log)
      | Some wt \<Rightarrow> (([], Some wt), log))"
  by (simp add: determineTarget_def pathLike_iff findByPath_eq findByBranch_eq)

lemma determineTarget_noMutation:
  "noMutation (snd (determineTarget b wts currentDir args selection []))"
proof (cases args)
  case Nil
  then show ?thesis
    using selectWorktreeForRebase_log [of b wts currentDir selection "[]"]
    by (auto simp: determineTarget_def noMutation_iff)
next
  case (Cons target rest)
  then show ?thesis
    by (simp add: determineTarget_args noMutation_def split: option.split)
qed

lemma rebaseSession_selected:
  assumes "getwd e = Some currentDir" and "managerCurrentBranch e = Inr cur"
    and "worktreeList e = Inr wts" and "wts \<noteq> []"
    and "determineTarget b wts currentDir args selection [] = ((out, target), log1)"
  shows "rebaseSession b car e args selection message =
     (case target of
        None \<Rightarrow> (out, log1)
      | Some wt \<Rightarrow>
          if Branch wt = cur then (out @ [ErrSelfRebase cur], log1)
          else if promptForCommitMessage message = []
          then (out @ [InfoRebasing wt cur, ErrEmptyCommitMessage], log1)
          else (case fst (car (Path wt) (promptForCommitMessage message) log1) of
                  Some er \<Rightarrow>
                    (out @ [InfoRebasing wt cur, InfoCommitting, ErrFailed er],
                     snd (car (Path wt) (promptForCommitMessage message) log1))
                | None \<Rightarrow>
                    (out @ [InfoRebasing wt cur, InfoCommitting, SuccessRebased wt cur,
                            InfoPreserved (Path wt)],
                     snd (car (Path wt) (promptForCommitMessage message) log1))))"
  by (simp add: rebaseSession_def assms Let_def split_beta split: option.split)

lemma rebaseSession_early:
  "getwd e = None \<or> (\<exists>er. managerCurrentBranch e = Inl er) \<or> (\<exists>er. worktreeList e = Inl er)
     \<or> worktreeList e = Inr [] \<Longrightarrow>
   snd (rebaseSession b car e args selection message) = []"
  by (auto simp: rebaseSession_def split: option.split sum.split)

text \<open>
  Claim C7. When the commit message read at the prompt is empty (no line, or a line of
  white space), no call that stages, commits, rebases or aborts is ever issued, for any
  implementation of the commit-and-rebase step: it is not reached. For a run that gets
  as far as the prompt (a target was determined and its branch is not the current one)
  the command ends with the error about the empty message, and its log is the log of the
  target's determination, which holds read-only queries of the interactive selector at
  most.
\<close>

theorem empty_commit_message_rejected:
  assumes "promptForCommitMessage message = []"
  shows "noMutation (snd (rebaseSession b car e args selection message))
       \<and> (\<forall>currentDir cur wts out wt log1.
            getwd e = Some currentDir \<and> managerCurrentBranch e = Inr cur \<and>
            worktreeList e = Inr wts \<and> wts \<noteq> [] \<and>
            determineTarget b wts currentDir args selection [] = ((out, Some wt), log1) \<and>
            Branch wt \<noteq> cur
            \<longrightarrow> rebaseSession b car e args selection message =
                  (out @ [InfoRebasing wt cur, ErrEmptyCommitMessage], log1))"
proof -
  have nm: "noMutation (snd (rebaseSession b car e args selection message))"
  proof (cases "getwd e = None \<or> (\<exists>er. managerCurrentBranch e = Inl er) \<or>
                (\<exists>er. worktreeList e = Inl er) \<or> worktreeList e = Inr []")
    case True
    from rebaseSession_early [OF this] show ?thesis by (simp add: noMutation_def)
  next
    case False
    then obtain currentDir cur wts where env: "getwd e = Some currentDir"
      "managerCurrentBranch e = Inr cur" "worktreeList e = Inr wts" "wts \<noteq> []"
      by (cases "getwd e"; cases "managerCurrentBranch e"; cases "worktreeList e") auto
    obtain out target log1 where dt:
      "determineTarget b wts currentDir args selection [] = ((out, target), log1)"
      by (cases "determineTarget b wts currentDir args selection []") auto
    have "snd (rebaseSession b car e args selection message) = log1"
      using rebaseSession_selected [OF env dt, of car message] assms
      by (simp split: option.split)
    moreover have "noMutation log1"
      using determineTarget_noMutation [of b wts currentDir args selection] dt by simp
    ultimately show ?thesis by simp
  qed
  have res: "rebaseSession b car e args selection message =
                  (out @ [InfoRebasing wt cur, ErrEmptyCommitMessage], log1)"
    if "getwd e = Some currentDir" "managerCurrentBranch e = Inr cur"
      "worktreeList e = Inr wts" "wts \<noteq> []"
      "determineTarget b wts currentDir args selection [] = ((out, Some wt), log1)"
      "Branch wt \<noteq> cur"
    for currentDir cur wts out wt log1
    using rebaseSession_selected [OF that(1-5), of car message] that(6) assms by simp
  show ?thesis using nm res by blast
qed

text \<open>
  Claim C8. When the branch of the determined target equals the current branch, the
  command ends with the error that the branch cannot be rebased onto itself. Its log is
  that of the target's determination: no commit and no rebase call is made, for any
  implementation of the commit-and-rebase step.
\<close>

theorem self_rebase_rejected:
  assumes "getwd e = Some currentDir" and "managerCurrentBranch e = Inr cur"
    and "worktreeList e = Inr wts" and "wts \<noteq> []"
    and "determineTarget b wts currentDir args selection [] = ((out, Some wt), log1)"
    and "Branch wt = cur"
  shows "rebaseSession b car e args selection message = (out @ [ErrSelfRebase cur], log1)
       \<and> noMutation (snd (rebaseSession b car e args selection message))"
proof -
  have r: "rebaseSession b car e args selection message = (out @ [ErrSelfRebase cur], log1)"
    using rebaseSession_selected [OF assms(1-5), of car message] assms(6) by simp
  have "noMutation log1"
    using determineTarget_noMutation [of b wts currentDir args selection] assms(5) by simp
  with r show ?thesis by simp
qed


lemma TrimSpace_samples:
  "TrimSpace [] = []" "TrimSpace ''  '' = []" "TrimSpace ''1'' = ''1''"
  "TrimSpace ''wip'' = ''wip''"
  by (simp_all add: TrimSpace_def spaceRunes_def)

lemma Sscanf_d_one: "Sscanf_d ''1'' = Some 1"
  by (simp add: Sscanf_d_def scanInt_def scanNumber_def digitVal_def spaceRunes_def inInt64_def)

lemma repoEnv_simps:
  "getwd (repoEnv wts) = Some ''/repo''"
  "managerCurrentBranch (repoEnv wts) = Inr ''main''"
  "worktreeList (repoEnv wts) = Inr wts"
  by (simp_all add: repoEnv_def)

lemma quiet_statusIcon:
  "statusIcon quietBackend ''main'' wtA log =
     (Gray, log @ [statusCall ''/w/a'', aheadCall ''/w/a'' ''main'', behindCall ''/w/a'' ''main''])"
  using parseCount_samples(1) wrap64_small(1)
  by (simp add: statusIcon_def HasUncommittedChanges_eq GetCommitCountDifference_eq
      quietBackend_def wtA_def statusCall_def aheadCall_def behindCall_def TrimSpace_samples)

lemma quiet_select:
  assumes "filter (\<lambda>wt. Path wt \<noteq> ''/repo'' \<and> Branch wt \<noteq> []) wts = [wtA]"
  shows "selectWorktreeForRebase quietBackend wts ''/repo'' (Some ''1'') [] =
     (([TitleSelect, LineChoice 1 Gray wtA, PromptNumber], Some wtA),
      [branchCall ''/repo'', statusCall ''/w/a'', aheadCall ''/w/a'' ''main'',
       behindCall ''/w/a'' ''main''])"
proof -
  have g: "GetCurrentBranch quietBackend ''/repo'' [] = (Inr ''main'', [branchCall ''/repo''])"
    by (simp add: GetCurrentBranch_def CombinedOutput_def quietBackend_def branchCall_def
        TrimSpace_def spaceRunes_def)
  have l: "listChoices quietBackend ''main'' 0 [wtA] [branchCall ''/repo''] =
      ([LineChoice 1 Gray wtA],
       [branchCall ''/repo'', statusCall ''/w/a'', aheadCall ''/w/a'' ''main'',
        behindCall ''/w/a'' ''main''])"
    by (simp add: quiet_statusIcon)
  show ?thesis
    by (simp add: selectWorktreeForRebase_def assms g l TrimSpace_samples Sscanf_d_one
        del: listChoices.simps)
qed

text \<open>
  Claim C7 on a run of the interactive selector: the first choice is taken and the
  message is a line of blanks, two of them outside ASCII.
\<close>

theorem empty_commit_message_rejected_witness:
  "promptForCommitMessage (Some blankMessage) = []
   \<and> determineTarget quietBackend [wtMain, wtA] ''/repo'' [] (Some ''1'') [] =
       (([TitleSelect, LineChoice 1 Gray wtA, PromptNumber], Some wtA),
        [branchCall ''/repo'', statusCall ''/w/a'', aheadCall ''/w/a'' ''main'',
         behindCall ''/w/a'' ''main''])
   \<and> Branch wtA \<noteq> ''main''
   \<and> rebaseSession quietBackend (CommitAndRebaseSession quietBackend ''main'')
        (repoEnv [wtMain, wtA]) [] (Some ''1'') (Some blankMessage) =
       ([TitleSelect, LineChoice 1 Gray wtA, PromptNumber, InfoRebasing wtA ''main'',
         ErrEmptyCommitMessage],
        [branchCall ''/repo'', statusCall ''/w/a'', aheadCall ''/w/a'' ''main'',
         behindCall ''/w/a'' ''main''])
   \<and> noMutation (snd (rebaseSession quietBackend (CommitAndRebaseSession quietBackend ''main'')
        (repoEnv [wtMain, wtA]) [] (Some ''1'') (Some blankMessage)))"
proof -
  have m: "promptForCommitMessage (Some blankMessage) = []"
    by (simp add: promptForCommitMessage_def blankMessage_def TrimSpace_def spaceRunes_def)
  have f: "filter (\<lambda>wt. Path wt \<noteq> ''/repo'' \<and> Branch wt \<noteq> []) [wtMain, wtA] = [wtA]"
    by (simp add: wtMain_def wtA_def)
  have d: "determineTarget quietBackend [wtMain, wtA] ''/repo'' [] (Some ''1'') [] =
       (([TitleSelect, LineChoice 1 Gray wtA, PromptNumber], Some wtA),
        [branchCall ''/repo'', statusCall ''/w/a'', aheadCall ''/w/a'' ''main'',
         behindCall ''/w/a'' ''main''])"
    by (simp add: determineTarget_def quiet_select [OF f])
  have br: "Branch wtA \<noteq> ''main''" by (simp add: wtA_def)
  note th = empty_commit_message_rejected [OF m, of quietBackend
      "CommitAndRebaseSession quietBackend ''main''" "repoEnv [wtMain, wtA]" "[]" "Some ''1''"]
  have r: "rebaseSession quietBackend (CommitAndRebaseSession quietBackend ''main'')
        (repoEnv [wtMain, wtA]) [] (Some ''1'') (Some blankMessage) =
       ([TitleSelect, LineChoice 1 Gray wtA, PromptNumber] @
          [InfoRebasing wtA ''main'', ErrEmptyCommitMessage],
        [branchCall ''/repo'', statusCall ''/w/a'', aheadCall ''/w/a'' ''main'',
         behindCall ''/w/a'' ''main''])"
    using th [THEN conjunct2, rule_format, of "''/repo''" "''main''" "[wtMain, wtA]"
        "[TitleSelect, LineChoice 1 Gray wtA, PromptNumber]" wtA
        "[branchCall ''/repo'', statusCall ''/w/a'', aheadCall ''/w/a'' ''main'',
          behindCall ''/w/a'' ''main'']"]
      repoEnv_simps d br
    by blast
  have r': "rebaseSession quietBackend (CommitAndRebaseSession quietBackend ''main'')
        (repoEnv [wtMain, wtA]) [] (Some ''1'') (Some blankMessage) =
       ([TitleSelect, LineChoice 1 Gray wtA, PromptNumber, InfoRebasing wtA ''main'',
         ErrEmptyCommitMessage],
        [branchCall ''/repo'', statusCall ''/w/a'', aheadCall ''/w/a'' ''main'',
         behindCall ''/w/a'' ''main''])"
    using r by simp
  show ?thesis
    using m d br r' th [THEN conjunct1] by (intro conjI)
qed

text \<open>
  Claim C8 on the argument \<open>/repo\<close>, the path of the worktree of the current branch.
\<close>

theorem self_rebase_rejected_witness:
  "determineTarget quietBackend [wtMain, wtA] ''/repo'' [''/repo''] None [] =
     (([], Some wtMain), [])
   \<and> Branch wtMain = ''main''
   \<and> rebaseSession quietBackend (CommitAndRebaseSession quietBackend ''main'')
        (repoEnv [wtMain, wtA]) [''/repo''] None (Some ''wip'') =
       ([ErrSelfRebase ''main''], [])"
proof -
  have d: "determineTarget quietBackend [wtMain, wtA] ''/repo'' [''/repo''] None [] =
     (([], Some wtMain), [])"
    by (simp add: determineTarget_def IsAbs_def wtMain_def)
  have br: "Branch wtMain = ''main''" by (simp add: wtMain_def)
  have ne: "[wtMain, wtA] \<noteq> []" by simp
  note th = self_rebase_rejected [OF repoEnv_simps(1) repoEnv_simps(2) repoEnv_simps(3) ne d br,
      of "CommitAndRebaseSession quietBackend ''main''" "Some ''wip''", THEN conjunct1]
  have r: "rebaseSession quietBackend (CommitAndRebaseSession quietBackend ''main'')
        (repoEnv [wtMain, wtA]) [''/repo''] None (Some ''wip'') =
       ([ErrSelfRebase ''main''], [])"
    using th by simp
  show ?thesis using d br r by (intro conjI)
qed



section \<open>The directories a fanout touches\<close>

lemma verdicts_fst: "map fst (verdicts b cur wts log) = wts"
  by (induction wts arbitrary: log) simp_all

lemma safetyChecks_safe_subset:
  assumes "safetyChecks b cur wts log = ((out, us, sf), log1)"
  shows "set sf \<subseteq> set wts"
proof -
  from assms safetyChecks_eq [of b cur wts log]
  have "sf = map fst (filter (\<lambda>p. \<not> isUnsafe (snd p)) (verdicts b cur wts log))" by simp
  then have "set sf \<subseteq> set (map fst (verdicts b cur wts log))" by auto
  then show ?thesis by (simp only: verdicts_fst)
qed

lemma rebaseWorktree_log:
  "\<exists>ext. snd (rebaseWorktree b dir ref log) = log @ ext \<and> (\<forall>c\<in>set ext. fst c = dir)"
proof (cases "b log (dir, [''rebase'', ref])")
  case (Pair out err)
  show ?thesis
  proof (cases err)
    case None
    with Pair have "snd (rebaseWorktree b dir ref log) = log @ [(dir, [''rebase'', ref])]"
      using rebaseWorktree_ok [of b log dir ref] by simp
    then show ?thesis by simp
  next
    case (Some e)
    with Pair have "snd (rebaseWorktree b dir ref log) =
        log @ (if isConflictOutput out
               then [(dir, [''rebase'', ref]), (dir, [''rebase'', ''--abort''])]
               else [(dir, [''rebase'', ref])])"
      using rebaseWorktree_failed [of b log dir ref out e] by simp
    then show ?thesis by (cases "isConflictOutput out") simp_all
  qed
qed

lemma fanoutLoop_log:
  "\<exists>ext. snd (fanoutLoop b cur wts n log) = log @ ext \<and> (\<forall>c\<in>set ext. fst c \<in> Path ` set wts)"
proof (induction wts arbitrary: n log)
  case Nil
  show ?case by simp
next
  case (Cons wt rest)
  obtain res log1 where rw: "rebaseWorktree b (Path wt) cur log = (res, log1)"
    by (cases "rebaseWorktree b (Path wt) cur log")
  obtain ext1 where e1: "log1 = log @ ext1" "\<forall>c\<in>set ext1. fst c = Path wt"
    using rebaseWorktree_log [of b "Path wt" cur log] rw by auto
  obtain ext2 where e2: "snd (fanoutLoop b cur rest (n + 1) log1) = log1 @ ext2"
    "\<forall>c\<in>set ext2. fst c \<in> Path ` set rest"
    using Cons.IH [of "n + 1" log1] by blast
  have "snd (fanoutLoop b cur (wt # rest) n log) = log1 \<or>
        snd (fanoutLoop b cur (wt # rest) n log) = snd (fanoutLoop b cur rest (n + 1) log1)"
    by (simp add: rw Let_def split_beta split: option.split)
  then have "snd (fanoutLoop b cur (wt # rest) n log) = log @ ext1 \<or>
        snd (fanoutLoop b cur (wt # rest) n log) = log @ (ext1 @ ext2)"
    using e1(1) e2(1) by auto
  moreover have "\<forall>c\<in>set ext1. fst c \<in> Path ` set (wt # rest)" using e1(2) by simp
  moreover have "\<forall>c\<in>set (ext1 @ ext2). fst c \<in> Path ` set (wt # rest)"
    using e1(2) e2(2) by auto
  ultimately show ?case by blast
qed

lemma fanoutBranches_dirs:
  assumes "getwd e = Some currentDir" and "managerCurrentBranch e = Inr cur"
    and "worktreeList e = Inr wts"
  shows "\<forall>c\<in>set (snd (fanoutBranches b e confirm)).
           fst c \<in> Path ` set (filter (\<lambda>wt. Path wt \<noteq> currentDir \<and> Branch wt \<noteq> [] \<and>
                                            Branch wt \<noteq> cur) wts)"
proof -
  let ?targets = "filter (\<lambda>wt. Path wt \<noteq> currentDir \<and> Branch wt \<noteq> [] \<and> Branch wt \<noteq> cur) wts"
  show ?thesis
  proof (cases "?targets = []")
    case True
    then have "snd (fanoutBranches b e confirm) = []"
      by (simp add: fanoutBranches_def assms)
    then show ?thesis by simp
  next
    case False
    obtain out us sf log1 where sc: "safetyChecks b cur ?targets [] = ((out, us, sf), log1)"
      by (cases "safetyChecks b cur ?targets []") auto
    have l1: "\<forall>c\<in>set log1. fst c \<in> Path ` set ?targets"
      using safetyChecks_log [of b cur ?targets "[]"] sc by auto
    obtain ext where ext: "snd (fanoutLoop b cur sf 0 log1) = log1 @ ext"
      "\<forall>c\<in>set ext. fst c \<in> Path ` set sf"
      using fanoutLoop_log by blast
    have sub: "set sf \<subseteq> set ?targets" using safetyChecks_safe_subset [OF sc] .
    have l3: "\<forall>c\<in>set ext. fst c \<in> Path ` set ?targets"
      using ext(2) sub by blast
    have l2: "\<forall>c\<in>set (snd (fanoutLoop b cur sf 0 log1)). fst c \<in> Path ` set ?targets"
    proof
      fix c
      assume "c \<in> set (snd (fanoutLoop b cur sf 0 log1))"
      then have "c \<in> set log1 \<or> c \<in> set ext" by (simp add: ext(1))
      then show "fst c \<in> Path ` set ?targets" using l1 l3 by blast
    qed
    have "snd (fanoutBranches b e confirm) = log1 \<or>
          snd (fanoutBranches b e confirm) = snd (fanoutLoop b cur sf 0 log1)"
      using fanoutBranches_planned [OF assms refl False sc, of confirm]
      by (simp del: fanoutLoop.simps safetyChecks.simps)
    then show ?thesis
    proof
      assume a: "snd (fanoutBranches b e confirm) = log1"
      show ?thesis unfolding a by (rule l1)
    next
      assume a: "snd (fanoutBranches b e confirm) = snd (fanoutLoop b cur sf 0 log1)"
      show ?thesis unfolding a by (rule l2)
    qed
  qed
qed

text \<open>
  What the two filters do. Every call of a fanout run, query or rebase, is made in the
  directory of a listed worktree that is not at the current directory, has a branch name
  and is not on the source branch: a worktree the filter leaves out is neither evaluated
  nor rebased. The interactive selector returns only a listed worktree that is not at the
  current directory and has a branch name, and apart from asking for the current branch
  it queries only such worktrees, with read-only commands.
\<close>

lemma empty_branch_excluded_by_filters:
  "(getwd e = Some currentDir \<and> managerCurrentBranch e = Inr cur \<and> worktreeList e = Inr wts
      \<longrightarrow> (\<forall>c\<in>set (snd (fanoutBranches b e confirm)).
             \<exists>wt\<in>set wts. fst c = Path wt \<and> Path wt \<noteq> currentDir \<and> Branch wt \<noteq> [] \<and>
                           Branch wt \<noteq> cur))
   \<and> (\<forall>out wt. fst (selectWorktreeForRebase b wts currentDir input log) = (out, Some wt)
         \<longrightarrow> wt \<in> set wts \<and> Path wt \<noteq> currentDir \<and> Branch wt \<noteq> [])
   \<and> (\<exists>ext. snd (selectWorktreeForRebase b wts currentDir input log) = log @ ext \<and>
         (\<forall>c\<in>set ext. \<not> isMutation (snd c) \<and>
            (c = branchCall currentDir \<or>
             (\<exists>wt\<in>set wts. fst c = Path wt \<and> Path wt \<noteq> currentDir \<and> Branch wt \<noteq> []))))"
proof -
  have a: "\<forall>c\<in>set (snd (fanoutBranches b e confirm)).
             \<exists>wt\<in>set wts. fst c = Path wt \<and> Path wt \<noteq> currentDir \<and> Branch wt \<noteq> [] \<and>
                           Branch wt \<noteq> cur"
    if "getwd e = Some currentDir" "managerCurrentBranch e = Inr cur" "worktreeList e = Inr wts"
  proof
    fix c
    assume "c \<in> set (snd (fanoutBranches b e confirm))"
    with fanoutBranches_dirs [OF that, of b confirm]
    have "fst c \<in> Path ` set (filter (\<lambda>wt. Path wt \<noteq> currentDir \<and> Branch wt \<noteq> [] \<and>
                                            Branch wt \<noteq> cur) wts)"
      by blast
    then show "\<exists>wt\<in>set wts. fst c = Path wt \<and> Path wt \<noteq> currentDir \<and> Branch wt \<noteq> [] \<and>
                           Branch wt \<noteq> cur"
      by auto
  qed
  have s: "wt \<in> set wts \<and> Path wt \<noteq> currentDir \<and> Branch wt \<noteq> []"
    if "fst (selectWorktreeForRebase b wts currentDir input log) = (out, Some wt)" for out wt
    using selectWorktreeForRebase_selected [OF that] .
  obtain ext where ext: "snd (selectWorktreeForRebase b wts currentDir input log) = log @ ext"
    "\<forall>c\<in>set ext. \<not> isMutation (snd c) \<and>
            (c = branchCall currentDir \<or>
             fst c \<in> Path ` set (filter (\<lambda>wt. Path wt \<noteq> currentDir \<and> Branch wt \<noteq> []) wts))"
    using selectWorktreeForRebase_log [of b wts currentDir input log] by blast
  have q: "\<forall>c\<in>set ext. \<not> isMutation (snd c) \<and>
            (c = branchCall currentDir \<or>
             (\<exists>wt\<in>set wts. fst c = Path wt \<and> Path wt \<noteq> currentDir \<and> Branch wt \<noteq> []))"
  proof
    fix c
    assume "c \<in> set ext"
    with ext(2) have "\<not> isMutation (snd c)" and
      "c = branchCall currentDir \<or>
       fst c \<in> Path ` set (filter (\<lambda>wt. Path wt \<noteq> currentDir \<and> Branch wt \<noteq> []) wts)"
      by blast+
    then show "\<not> isMutation (snd c) \<and>
            (c = branchCall currentDir \<or>
             (\<exists>wt\<in>set wts. fst c = Path wt \<and> Path wt \<noteq> currentDir \<and> Branch wt \<noteq> []))"
      by auto
  qed
  show ?thesis using a s ext(1) q by blast
qed

text \<open>
  Claim C9, on a repository with a worktree \<open>/w/d\<close> whose head is detached, so that its
  branch name is empty. The lookup by argument applies neither filter: the argument
  \<open>/w/d\<close> selects that worktree by its path, the empty argument selects it by its
  branch name, and either way its changes are staged, committed and rebased onto
  \<open>main\<close>.
\<close>

theorem detached_worktree_rebased_by_argument:
  "Branch wtD = []
   \<and> rebaseSession quietBackend (CommitAndRebaseSession quietBackend ''main'')
        (repoEnv [wtMain, wtD]) [''/w/d''] None (Some ''wip'') =
       ([InfoRebasing wtD ''main'', InfoCommitting, SuccessRebased wtD ''main'',
         InfoPreserved ''/w/d''],
        [(''/w/d'', [''add'', ''-A'']), (''/w/d'', [''commit'', ''-m'', ''wip'']),
         (''/w/d'', [''rebase'', ''main''])])
   \<and> rebaseSession quietBackend (CommitAndRebaseSession quietBackend ''main'')
        (repoEnv [wtMain, wtD]) [[]] None (Some ''wip'') =
       ([InfoRebasing wtD ''main'', InfoCommitting, SuccessRebased wtD ''main'',
         InfoPreserved ''/w/d''],
        [(''/w/d'', [''add'', ''-A'']), (''/w/d'', [''commit'', ''-m'', ''wip'']),
         (''/w/d'', [''rebase'', ''main''])])"
proof -
  have br: "Branch wtD = []" by (simp add: wtD_def)
  have d: "determineTarget quietBackend [wtMain, wtD] ''/repo'' [''/w/d''] None [] =
     (([], Some wtD), [])"
    by (simp add: determineTarget_def IsAbs_def HasSuffix_def wtMain_def wtD_def)
  have m: "promptForCommitMessage (Some ''wip'') = ''wip''"
    by (simp add: promptForCommitMessage_def TrimSpace_samples)
  have c: "CommitAndRebaseSession quietBackend ''main'' ''/w/d'' ''wip'' [] =
      (None, [(''/w/d'', [''add'', ''-A'']), (''/w/d'', [''commit'', ''-m'', ''wip'']),
         (''/w/d'', [''rebase'', ''main''])])"
    by (simp add: CommitAndRebaseSession_def StageAll_def Commit_def RebaseCommit_def
        CombinedOutput_def quietBackend_def)
  have ne: "[wtMain, wtD] \<noteq> []" by simp
  have p: "Path wtD = ''/w/d''" by (simp add: wtD_def)
  have r: "rebaseSession quietBackend (CommitAndRebaseSession quietBackend ''main'')
        (repoEnv [wtMain, wtD]) [''/w/d''] None (Some ''wip'') =
       ([InfoRebasing wtD ''main'', InfoCommitting, SuccessRebased wtD ''main'',
         InfoPreserved ''/w/d''],
        [(''/w/d'', [''add'', ''-A'']), (''/w/d'', [''commit'', ''-m'', ''wip'']),
         (''/w/d'', [''rebase'', ''main''])])"
    using rebaseSession_selected [OF repoEnv_simps(1) repoEnv_simps(2) repoEnv_simps(3) ne d,
        of "CommitAndRebaseSession quietBackend ''main''" "Some ''wip''"]
    by (simp add: br m p c)
  have d2: "determineTarget quietBackend [wtMain, wtD] ''/repo'' [[]] None [] =
     (([], Some wtD), [])"
    by (simp add: determineTarget_def IsAbs_def wtMain_def wtD_def)
  have r2: "rebaseSession quietBackend (CommitAndRebaseSession quietBackend ''main'')
        (repoEnv [wtMain, wtD]) [[]] None (Some ''wip'') =
       ([InfoRebasing wtD ''main'', InfoCommitting, SuccessRebased wtD ''main'',
         InfoPreserved ''/w/d''],
        [(''/w/d'', [''add'', ''-A'']), (''/w/d'', [''commit'', ''-m'', ''wip'']),
         (''/w/d'', [''rebase'', ''main''])])"
    using rebaseSession_selected [OF repoEnv_simps(1) repoEnv_simps(2) repoEnv_simps(3) ne d2,
        of "CommitAndRebaseSession quietBackend ''main''" "Some ''wip''"]
    by (simp add: br m p c)
  show ?thesis using br r r2 by (intro conjI)
qed

end
